theory Spec2Isabelle
  imports Main
begin

section \<open>Data model of the ingestion module\<close>

text \<open>
  The entity \<open>IngestionJob\<close> of \<open>ingestion-job.entity.ts\<close> and the rows of the
  document table that the ingestion service reads. Instants are milliseconds since the
  epoch, as \<open>Date.now()\<close> returns them. The columns \<open>createdAt\<close>, \<open>updatedAt\<close> and
  the relation \<open>createdBy\<close> are filled in by the persistence layer and never written by
  the service; they are left out.
\<close>

datatype IngestionStatus =
    PENDING | PROCESSING | COMPLETED | FAILED | RETRYING
  | Inherited string
    \<comment> \<open>not a member of the enum: the run-time value \<open>Object.prototype[k]\<close> that
        \<open>mapExternalStatus\<close> hands back for an inherited property name \<open>k\<close>\<close>

datatype IngestionType =
    OCR | TEXT_EXTRACTION | DOCUMENT_CLASSIFICATION | DATA_EXTRACTION
  | OtherType string
    \<comment> \<open>a run-time value outside the enum, the \<open>default:\<close> case of the type switch\<close>

datatype ProcessingType =
    P_OCR | P_TEXT_EXTRACTION | P_DOCUMENT_CLASSIFICATION | P_DATA_EXTRACTION

text \<open>The \<open>any\<close>-typed payloads (\<open>parameters\<close>, \<open>outputData\<close>, webhook \<open>output\<close>).\<close>

datatype json =
    JNull | JBool bool | JNum int | JStr string
  | JArr "json list" | JObj "(string \<times> json) list"

record Document =
  doc_id :: nat
  doc_title :: string
  doc_filePath :: string
  doc_originalFileName :: string
  doc_mimeType :: string
  doc_createdById :: nat

record DocumentSnapshot =
  snap_id :: nat
  snap_title :: string
  snap_filePath :: string
  snap_fileName :: string
  snap_mimeType :: string

record InputData =
  documentIds :: "nat list"
  documents :: "DocumentSnapshot list"

record IngestionJob =
  job_id :: "nat option"          \<comment> \<open>\<open>id\<close>; absent until the first save\<close>
  name :: string
  description :: "string option"
  ingestionType :: IngestionType  \<comment> \<open>\<open>type\<close>\<close>
  status :: IngestionStatus
  progress :: nat
  errorMessage :: "string option"
  retryCount :: nat
  maxRetries :: nat
  parameters :: json
  inputData :: "InputData option"
  outputData :: "json option"
  externalJobId :: "string option"
  startedAt :: "int option"
  completedAt :: "int option"
  nextRetryAt :: "int option"
  createdById :: nat

text \<open>The ingestion service's view of a processing result: it reads only these fields.\<close>

record ProcessingResult =
  res_success :: bool
  res_data :: "json option"
  res_error :: "string option"

record DocumentInfo =
  info_id :: nat
  info_filePath :: string
  info_fileName :: string
  info_mimeType :: string

record TriggerIngestionDto =
  dto_name :: "string option"
  dto_description :: "string option"
  dto_type :: IngestionType
  dto_documentIds :: "nat list"
  dto_parameters :: "json option"
  dto_maxRetries :: "nat option"

text \<open>The object the webhook controller passes on: \<open>{status, progress, error, output}\<close>.\<close>

record StatusUpdate =
  su_status :: string
  su_progress :: "nat option"
  su_error :: "string option"
  su_output :: "json option"

datatype exn = NotFoundException string | BadRequestException string

section \<open>JavaScript values\<close>

text \<open>
  Truthiness, as \<open>a || b\<close> tests it: \<open>undefined\<close> and \<open>null\<close>, the number 0, the empty
  string and \<open>false\<close> are falsy; objects and arrays are truthy.
\<close>

fun truthy_num :: "nat option \<Rightarrow> bool" where
  "truthy_num None = False"
| "truthy_num (Some n) = (n \<noteq> 0)"

fun truthy_str :: "string option \<Rightarrow> bool" where
  "truthy_str None = False"
| "truthy_str (Some s) = (s \<noteq> [])"

fun truthy_json :: "json option \<Rightarrow> bool" where
  "truthy_json None = False"
| "truthy_json (Some JNull) = False"
| "truthy_json (Some (JBool b)) = b"
| "truthy_json (Some (JNum n)) = (n \<noteq> 0)"
| "truthy_json (Some (JStr s)) = (s \<noteq> [])"
| "truthy_json (Some (JArr xs)) = True"
| "truthy_json (Some (JObj kvs)) = True"

text \<open>\<open>a || 'literal'\<close> for an optional string \<open>a\<close>.\<close>

definition str_or :: "string option \<Rightarrow> string \<Rightarrow> string" where
  "str_or a b = (if truthy_str a then the a else b)"

text \<open>\<open>Math.round(a / b)\<close> for naturals \<open>a\<close> and \<open>b > 0\<close>: halves round up.\<close>

definition Math_round_div :: "nat \<Rightarrow> nat \<Rightarrow> nat" where
  "Math_round_div a b = (2 * a + b) div (2 * b)"

text \<open>The decimal digits of a number, as a template literal renders \<open>Date.now()\<close>.\<close>

definition digit_char :: "nat \<Rightarrow> char" where
  "digit_char d = ''0123456789'' ! d"

fun decimal :: "nat \<Rightarrow> string" where
  "decimal n = (if n < 10 then [digit_char n] else decimal (n div 10) @ [digit_char (n mod 10)])"

declare decimal.simps [simp del]

text \<open>
  The property names every object literal inherits from \<open>Object.prototype\<close>. A lookup
  \<open>obj[key]\<close> that finds no own property \<open>key\<close> continues there, and each of these
  names holds a function or an object, which is truthy.
\<close>

definition Object_prototype_names :: "string list" where
  "Object_prototype_names =
     [''constructor'', ''__defineGetter__'', ''__defineSetter__'', ''hasOwnProperty'',
      ''__lookupGetter__'', ''__lookupSetter__'', ''isPrototypeOf'',
      ''propertyIsEnumerable'', ''toString'', ''valueOf'', ''__proto__'',
      ''toLocaleString'']"

section \<open>The job store and the document table\<close>

text \<open>
  The two repositories. Rows are kept in insertion order; \<open>nextJobId\<close> is the sequence
  behind the generated primary key. The store is a value and a lookup always answers. A
  persist succeeds, except inside \<open>processJob\<close>, the routine whose subject is what
  happens when something throws: there the environment says which persists reject.
\<close>

record store =
  jobRows :: "IngestionJob list"
  documentRows :: "Document list"
  nextJobId :: nat

definition findJobById :: "nat \<Rightarrow> store \<Rightarrow> IngestionJob option" where
  "findJobById i st = find (\<lambda>j. job_id j = Some i) (jobRows st)"

definition findJobByExternalJobId :: "string \<Rightarrow> store \<Rightarrow> IngestionJob option" where
  "findJobByExternalJobId e st = find (\<lambda>j. externalJobId j = Some e) (jobRows st)"

text \<open>\<open>documentRepository.find({ where: { id: In(documentIds) } })\<close>\<close>

definition findDocumentsIn :: "nat list \<Rightarrow> store \<Rightarrow> Document list" where
  "findDocumentsIn ids st = filter (\<lambda>d. doc_id d \<in> set ids) (documentRows st)"

text \<open>
  \<open>ingestionJobRepository.save(job)\<close>: a job without id is inserted under the next
  generated id; a job with an id replaces the row of that id (and is inserted when there
  is none). The saved entity, which now carries its id, is returned.
\<close>

definition save :: "IngestionJob \<Rightarrow> store \<Rightarrow> IngestionJob \<times> store" where
  "save job st =
     (case job_id job of
        None \<Rightarrow>
          (let job' = job\<lparr>job_id := Some (nextJobId st)\<rparr>
           in (job', st\<lparr>jobRows := jobRows st @ [job'], nextJobId := Suc (nextJobId st)\<rparr>))
      | Some i \<Rightarrow>
          (if findJobById i st = None
           then (job, st\<lparr>jobRows := jobRows st @ [job]\<rparr>)
           else (job, st\<lparr>jobRows := map (\<lambda>r. if job_id r = Some i then job else r) (jobRows st)\<rparr>)))"

section \<open>Retry backoff\<close>

text \<open>
  \<open>calculateNextRetry\<close>: \<open>Math.pow(2, retryCount)\<close> minutes, capped by \<open>Math.min\<close> at
  60, added to \<open>Date.now()\<close> in milliseconds. For a natural \<open>retryCount\<close> the power is
  an exact double up to \<open>2^1023\<close> and \<open>Infinity\<close> beyond, and the minimum with 60 is 60
  from \<open>retryCount = 6\<close> on, so the arithmetic on naturals is the arithmetic of the code.
\<close>

definition calculateNextRetry :: "int \<Rightarrow> IngestionJob \<Rightarrow> int" where
  "calculateNextRetry now job =
     (let delayMinutes = (2::nat) ^ retryCount job;
          maxDelayMinutes = 60;
          actualDelayMinutes = min delayMinutes maxDelayMinutes
      in now + int actualDelayMinutes * 60 * 1000)"

text \<open>The delay that a computed instant represents, in whole minutes after \<open>now\<close>.\<close>

definition delay_minutes :: "int \<Rightarrow> IngestionJob \<Rightarrow> int" where
  "delay_minutes now job = (calculateNextRetry now job - now) div (60 * 1000)"


section \<open>The ingestion service\<close>

subsection \<open>Helpers\<close>

definition validateDocuments :: "nat list \<Rightarrow> nat \<Rightarrow> store \<Rightarrow> exn + Document list" where
  "validateDocuments ids userId st =
     (let docs = findDocumentsIn ids st
      in if length docs \<noteq> length ids
         then Inl (BadRequestException ''Some documents not found'')
         else if filter (\<lambda>doc. doc_createdById doc \<noteq> userId) docs \<noteq> []
         then Inl (BadRequestException ''Access denied to some documents'')
         else Inr docs)"

text \<open>The type switch; its \<open>default:\<close> case throws an \<open>Error\<close>, given here by its message.\<close>

fun type_token :: "IngestionType \<Rightarrow> string" where
  "type_token OCR = ''ocr''"
| "type_token TEXT_EXTRACTION = ''text_extraction''"
| "type_token DOCUMENT_CLASSIFICATION = ''document_classification''"
| "type_token DATA_EXTRACTION = ''data_extraction''"
| "type_token (OtherType s) = s"

fun mapIngestionTypeToProcessingType :: "IngestionType \<Rightarrow> string + ProcessingType" where
  "mapIngestionTypeToProcessingType OCR = Inr P_OCR"
| "mapIngestionTypeToProcessingType TEXT_EXTRACTION = Inr P_TEXT_EXTRACTION"
| "mapIngestionTypeToProcessingType DOCUMENT_CLASSIFICATION = Inr P_DOCUMENT_CLASSIFICATION"
| "mapIngestionTypeToProcessingType DATA_EXTRACTION = Inr P_DATA_EXTRACTION"
| "mapIngestionTypeToProcessingType t = Inl (''Unknown ingestion type: '' @ type_token t)"

text \<open>
  \<open>statusMap[externalStatus] || IngestionStatus.FAILED\<close>. The four own keys hold
  non-empty strings; an inherited key holds a truthy value that is no status; for every
  other key the lookup is \<open>undefined\<close> and the default applies.
\<close>

definition statusMap :: "(string \<times> IngestionStatus) list" where
  "statusMap =
     [(''pending'', PENDING), (''processing'', PROCESSING),
      (''completed'', COMPLETED), (''failed'', FAILED)]"

definition mapExternalStatus :: "string \<Rightarrow> IngestionStatus" where
  "mapExternalStatus externalStatus =
     (case map_of statusMap externalStatus of
        Some s \<Rightarrow> s
      | None \<Rightarrow>
          if externalStatus \<in> set Object_prototype_names
          then Inherited externalStatus
          else FAILED)"

subsection \<open>findOne\<close>

text \<open>\<open>formatJobResponse\<close> only reshapes the relation \<open>createdBy\<close>, which is not modelled.\<close>

definition findOne :: "nat \<Rightarrow> nat \<Rightarrow> store \<Rightarrow> exn + IngestionJob" where
  "findOne i userId st =
     (case findJobById i st of
        None \<Rightarrow> Inl (NotFoundException ''Ingestion job not found'')
      | Some job \<Rightarrow>
          if createdById job \<noteq> userId
          then Inl (BadRequestException ''Access denied to this ingestion job'')
          else Inr job)"

subsection \<open>triggerIngestion\<close>

text \<open>
  What a call reads from its environment: \<open>new Date().toISOString()\<close>, \<open>Date.now()\<close>
  and \<open>Math.random().toString(36).substr(2, 9)\<close>.
\<close>

record trigger_env =
  isoNow :: string
  dateNow :: nat
  randomSuffix :: string

text \<open>
  The call persists twice and then starts \<open>processJob\<close> without awaiting it. The result
  keeps the store after each persist and the started call, the job and the documents it
  was given. The value finally sent back re-reads the job while that execution is
  already under way; which snapshot it sees depends on the interleaving and is not part
  of the result.
\<close>

record trigger_result =
  afterCreate :: store
  afterAssign :: store
  triggerScheduled :: "IngestionJob \<times> Document list"

definition generateExternalJobId :: "trigger_env \<Rightarrow> string" where
  "generateExternalJobId env = ''ext_job_'' @ decimal (dateNow env) @ ''_'' @ randomSuffix env"

definition snapshotOf :: "Document \<Rightarrow> DocumentSnapshot" where
  "snapshotOf doc =
     \<lparr>snap_id = doc_id doc, snap_title = doc_title doc, snap_filePath = doc_filePath doc,
      snap_fileName = doc_originalFileName doc, snap_mimeType = doc_mimeType doc\<rparr>"

definition createJob :: "trigger_env \<Rightarrow> TriggerIngestionDto \<Rightarrow> nat \<Rightarrow> Document list \<Rightarrow> IngestionJob" where
  "createJob env triggerDto userId docs =
     \<lparr>job_id = None,
      name = str_or (dto_name triggerDto) (''Ingestion Job '' @ isoNow env),
      description = dto_description triggerDto,
      ingestionType = dto_type triggerDto,
      status = PENDING,
      progress = 0,
      errorMessage = None,
      retryCount = 0,
      maxRetries = (if truthy_num (dto_maxRetries triggerDto) then the (dto_maxRetries triggerDto) else 3),
      parameters = (if truthy_json (dto_parameters triggerDto) then the (dto_parameters triggerDto) else JObj []),
      inputData = Some \<lparr>documentIds = dto_documentIds triggerDto, documents = map snapshotOf docs\<rparr>,
      outputData = None,
      externalJobId = None,
      startedAt = None,
      completedAt = None,
      nextRetryAt = None,
      createdById = userId\<rparr>"

definition triggerIngestion ::
  "trigger_env \<Rightarrow> TriggerIngestionDto \<Rightarrow> nat \<Rightarrow> store \<Rightarrow> exn + trigger_result" where
  "triggerIngestion env triggerDto userId st =
     (case validateDocuments (dto_documentIds triggerDto) userId st of
        Inl e \<Rightarrow> Inl e
      | Inr docs \<Rightarrow>
          (let ingestionJob = createJob env triggerDto userId docs;
               (savedJob, st1) = save ingestionJob st;
               savedJob' = savedJob\<lparr>externalJobId := Some (generateExternalJobId env)\<rparr>;
               (savedJob'', st2) = save savedJob' st1
           in Inr \<lparr>afterCreate = st1, afterAssign = st2,
                   triggerScheduled = (savedJob'', docs)\<rparr>))"

subsection \<open>retryJob\<close>

record retry_result =
  afterRetry :: store
  retryScheduled :: "IngestionJob \<times> Document list"

definition retryJob :: "nat \<Rightarrow> nat \<Rightarrow> store \<Rightarrow> exn + retry_result" where
  "retryJob i userId st =
     (case findOne i userId st of
        Inl e \<Rightarrow> Inl e
      | Inr job \<Rightarrow>
          if status job \<noteq> FAILED
          then Inl (BadRequestException ''Only failed jobs can be retried'')
          else if retryCount job \<ge> maxRetries job
          then Inl (BadRequestException ''Maximum retry attempts reached'')
          else
            (let job' = job\<lparr>status := RETRYING, progress := 0, errorMessage := None,
                            retryCount := retryCount job + 1, nextRetryAt := None\<rparr>;
                 (updatedJob, st') = save job' st;
                 ids = (case inputData job' of None \<Rightarrow> [] | Some d \<Rightarrow> documentIds d);
                 docs = findDocumentsIn ids st'
             in Inr \<lparr>afterRetry = st', retryScheduled = (updatedJob, docs)\<rparr>))"

subsection \<open>updateJobStatus\<close>

text \<open>
  The webhook. \<open>now\<close> is the one clock reading a call makes (\<open>startedAt\<close>, \<open>completedAt\<close>
  or the base of \<open>nextRetryAt\<close>: the three are exclusive). The result is the warnings
  logged and the store; the routine has no \<open>throw\<close>. \<open>applyStatusUpdate\<close> is the block of
  assignments to the job object between the lookup and the persist.
\<close>

definition applyStatusUpdate :: "int \<Rightarrow> StatusUpdate \<Rightarrow> IngestionJob \<Rightarrow> IngestionJob" where
  "applyStatusUpdate now statusUpdate job =
     (let j1 = job\<lparr>status := mapExternalStatus (su_status statusUpdate),
                    progress := (if truthy_num (su_progress statusUpdate)
                                 then the (su_progress statusUpdate) else progress job),
                    errorMessage := (if truthy_str (su_error statusUpdate)
                                     then su_error statusUpdate else errorMessage job),
                    outputData := (if truthy_json (su_output statusUpdate)
                                   then su_output statusUpdate else outputData job)\<rparr>;
          j2 = (if su_status statusUpdate = ''processing'' \<and> startedAt j1 = None
                then j1\<lparr>startedAt := Some now\<rparr> else j1);
          j3 = (if su_status statusUpdate = ''completed''
                then j2\<lparr>completedAt := Some now, progress := 100\<rparr> else j2)
      in if su_status statusUpdate = ''failed''
         then (let j = j3\<lparr>errorMessage :=
                            Some (str_or (su_error statusUpdate) ''Processing failed'')\<rparr>
               in if retryCount j < maxRetries j
                  then j\<lparr>nextRetryAt := Some (calculateNextRetry now j)\<rparr> else j)
         else j3)"

definition updateJobStatus :: "int \<Rightarrow> string \<Rightarrow> StatusUpdate \<Rightarrow> store \<Rightarrow> string list \<times> store" where
  "updateJobStatus now extId statusUpdate st =
     (case findJobByExternalJobId extId st of
        None \<Rightarrow> ([''Job with external ID '' @ extId @ '' not found''], st)
      | Some job \<Rightarrow> ([], snd (save (applyStatusUpdate now statusUpdate job) st)))"

subsection \<open>processJob\<close>

text \<open>
  What can be thrown inside \<open>processJob\<close>, as far as the \<open>catch\<close> block tells one value
  from another: \<open>null\<close> or \<open>undefined\<close>, on which reading \<open>error.message\<close> raises a
  \<open>TypeError\<close>; or any other value, given by its \<open>message\<close> property (absent or empty
  is falsy).
\<close>

datatype thrown = Thrown "string option" | Nullish

text \<open>
  The Processing Invoker is a parameter: a call either resolves with a result or rejects
  with a thrown value. The three clock readings are the \<open>new Date()\<close> of \<open>startedAt\<close>,
  that of \<open>completedAt\<close>, and the \<open>Date.now()\<close> inside \<open>calculateNextRetry\<close>. Inside
  \<open>processJob\<close> a persist can reject: \<open>tryPersist k\<close> says whether the persist at
  position \<open>k\<close> of the \<open>try\<close> block does (0 is the first one, 1 to 10 are those of the
  progress loop, 11 is the last one) and with what, \<open>catchPersist\<close> says it for the
  persist of the \<open>catch\<close> block.
\<close>

datatype invoker_outcome = Resolves ProcessingResult | Rejects thrown

record process_env =
  startedNow :: int
  completedNow :: int
  retryNow :: int
  processDocuments :: "ProcessingType \<Rightarrow> DocumentInfo list \<Rightarrow> json \<Rightarrow> invoker_outcome"
  tryPersist :: "nat \<Rightarrow> thrown option"
  catchPersist :: "thrown option"

text \<open>\<open>await this.ingestionJobRepository.save(job)\<close>, rejecting when the environment says so.\<close>

definition persist :: "thrown option \<Rightarrow> IngestionJob \<Rightarrow> store \<Rightarrow> thrown + (IngestionJob \<times> store)" where
  "persist rejects job st = (case rejects of Some t \<Rightarrow> Inl t | None \<Rightarrow> Inr (save job st))"

definition documentInfoOf :: "Document \<Rightarrow> DocumentInfo" where
  "documentInfoOf doc =
     \<lparr>info_id = doc_id doc, info_filePath = doc_filePath doc,
      info_fileName = doc_originalFileName doc, info_mimeType = doc_mimeType doc\<rparr>"

text \<open>
  The progress loop: \<open>for (let step = 0; step < totalSteps; step++)\<close>, one persist a step.
  \<open>Inl\<close> is a throw: the value thrown, with the job object and the store as they are at
  that moment.
\<close>

function progressLoop ::
  "process_env \<Rightarrow> nat \<Rightarrow> nat \<Rightarrow> IngestionJob \<Rightarrow> store
     \<Rightarrow> (thrown \<times> IngestionJob \<times> store) + (IngestionJob \<times> store)" where
  "progressLoop env totalSteps step job st =
     (if step < totalSteps
      then (let job' = job\<lparr>progress := Math_round_div ((step + 1) * 100) totalSteps\<rparr>
            in case persist (tryPersist env (step + 1)) job' st of
                 Inl t \<Rightarrow> Inl (t, job', st)
               | Inr (job'', st') \<Rightarrow> progressLoop env totalSteps (step + 1) job'' st')
      else Inr (job, st))"
  by pat_completeness auto
termination
  by (relation "measure (\<lambda>(env, totalSteps, step, job, st). totalSteps - step)") auto

declare progressLoop.simps [simp del]

text \<open>
  The failure update, which the \<open>else\<close> branch and the \<open>catch\<close> block both spell out:
  status, message, \<open>completedAt\<close>, and \<open>nextRetryAt\<close> if retries remain.
\<close>

definition markFailed :: "process_env \<Rightarrow> string option \<Rightarrow> IngestionJob \<Rightarrow> IngestionJob" where
  "markFailed env msg job =
     (let j = job\<lparr>status := FAILED,
                   errorMessage := Some (str_or msg ''Processing failed''),
                   completedAt := Some (completedNow env)\<rparr>
      in if retryCount j < maxRetries j
         then j\<lparr>nextRetryAt := Some (calculateNextRetry (retryNow env) j)\<rparr>
         else j)"

text \<open>The \<open>try\<close> block; \<open>Inl\<close> is what the \<open>catch\<close> block goes on from.\<close>

definition processJob_try ::
  "process_env \<Rightarrow> IngestionJob \<Rightarrow> Document list \<Rightarrow> store
     \<Rightarrow> (thrown \<times> IngestionJob \<times> store) + (IngestionJob \<times> store)" where
  "processJob_try env job docs st =
     (let job0 = job\<lparr>status := PROCESSING, startedAt := Some (startedNow env)\<rparr>
      in case persist (tryPersist env 0) job0 st of
           Inl t \<Rightarrow> Inl (t, job0, st)
         | Inr (job1, st1) \<Rightarrow>
             (case mapIngestionTypeToProcessingType (ingestionType job1) of
                Inl msg \<Rightarrow> Inl (Thrown (Some msg), job1, st1)
              | Inr processingType \<Rightarrow>
                  (let documentInfos = map documentInfoOf docs
                   in case progressLoop env 10 0 job1 st1 of
                        Inl thrownInLoop \<Rightarrow> Inl thrownInLoop
                      | Inr (job2, st2) \<Rightarrow>
                          (case processDocuments env processingType documentInfos (parameters job2) of
                             Rejects t \<Rightarrow> Inl (t, job2, st2)
                           | Resolves result \<Rightarrow>
                               (let job3 =
                                  (if res_success result
                                   then job2\<lparr>status := COMPLETED, progress := 100,
                                             outputData := res_data result,
                                             completedAt := Some (completedNow env)\<rparr>
                                   else markFailed env (res_error result) job2)
                                in case persist (tryPersist env 11) job3 st2 of
                                     Inl t \<Rightarrow> Inl (t, job3, st2)
                                   | Inr saved \<Rightarrow> Inr saved)))))"

text \<open>
  The whole routine. It returns (\<open>Inr\<close>: the job object and the store at the end) or
  rejects (\<open>Inl\<close>: what it rejects with, and the job object and the store at that
  moment). The \<open>catch\<close> block sets the status, then reads \<open>error.message\<close>, where a
  \<open>null\<close> or \<open>undefined\<close> error raises a \<open>TypeError\<close>, then fills in the rest and
  persists, and a rejection of that persist leaves the routine as it is. Both callers
  attach a \<open>.catch\<close> handler that logs the rejection and does nothing else.
\<close>

datatype rejection = Rethrown thrown | TypeErrorOnNullish

definition processJob ::
  "process_env \<Rightarrow> IngestionJob \<Rightarrow> Document list \<Rightarrow> store
     \<Rightarrow> (rejection \<times> IngestionJob \<times> store) + (IngestionJob \<times> store)" where
  "processJob env job docs st =
     (case processJob_try env job docs st of
        Inr finished \<Rightarrow> Inr finished
      | Inl (error, job', st') \<Rightarrow>
          (case error of
             Nullish \<Rightarrow> Inl (TypeErrorOnNullish, job'\<lparr>status := FAILED\<rparr>, st')
           | Thrown msg \<Rightarrow>
               (let job'' = markFailed env msg job'
                in case persist (catchPersist env) job'' st' of
                     Inl t \<Rightarrow> Inl (Rethrown t, job'', st')
                   | Inr saved \<Rightarrow> Inr saved)))"

text \<open>Running the execution that \<open>triggerIngestion\<close> or \<open>retryJob\<close> started.\<close>

definition runScheduled ::
  "process_env \<Rightarrow> IngestionJob \<times> Document list \<Rightarrow> store
     \<Rightarrow> (rejection \<times> IngestionJob \<times> store) + (IngestionJob \<times> store)" where
  "runScheduled env task st = processJob env (fst task) (snd task) st"

text \<open>The store, the job object and the rejection an execution ends with.\<close>

fun storeAfter :: "('r \<times> IngestionJob \<times> store) + (IngestionJob \<times> store) \<Rightarrow> store" where
  "storeAfter (Inl (r, job, st)) = st"
| "storeAfter (Inr (job, st)) = st"

fun jobAfter :: "('r \<times> IngestionJob \<times> store) + (IngestionJob \<times> store) \<Rightarrow> IngestionJob" where
  "jobAfter (Inl (r, job, st)) = job"
| "jobAfter (Inr (job, st)) = job"

fun rejectionOf :: "('r \<times> IngestionJob \<times> store) + (IngestionJob \<times> store) \<Rightarrow> 'r option" where
  "rejectionOf (Inl (r, job, st)) = Some r"
| "rejectionOf (Inr (job, st)) = None"

section \<open>Requests over time\<close>

text \<open>
  The service as a transition system: the store together with the executions started
  and not yet run. A request that throws leaves the system as it was. An execution runs
  as one step, at any later moment and in any order; the interleaving of its persists
  with other requests is not modelled. Whether the execution returns or rejects, the
  service goes on with the store it leaves.
\<close>

record system =
  sys_store :: store
  pending :: "(IngestionJob \<times> Document list) list"

datatype request =
    Trigger trigger_env TriggerIngestionDto nat
  | Retry nat nat
  | Webhook int string StatusUpdate
  | Execute process_env nat   \<comment> \<open>run the pending execution at this position\<close>

fun step :: "system \<Rightarrow> request \<Rightarrow> system" where
  "step s (Trigger env triggerDto userId) =
     (case triggerIngestion env triggerDto userId (sys_store s) of
        Inl e \<Rightarrow> s
      | Inr r \<Rightarrow> \<lparr>sys_store = afterAssign r, pending = pending s @ [triggerScheduled r]\<rparr>)"
| "step s (Retry i userId) =
     (case retryJob i userId (sys_store s) of
        Inl e \<Rightarrow> s
      | Inr r \<Rightarrow> \<lparr>sys_store = afterRetry r, pending = pending s @ [retryScheduled r]\<rparr>)"
| "step s (Webhook now extId statusUpdate) =
     s\<lparr>sys_store := snd (updateJobStatus now extId statusUpdate (sys_store s))\<rparr>"
| "step s (Execute env k) =
     (if k < length (pending s)
      then \<lparr>sys_store = storeAfter (runScheduled env (pending s ! k) (sys_store s)),
            pending = take k (pending s) @ drop (Suc k) (pending s)\<rparr>
      else s)"

definition run :: "system \<Rightarrow> request list \<Rightarrow> system" where
  "run s reqs = foldl step s reqs"

text \<open>The external id the store holds for the job of a given id, if there is such a job.\<close>

definition externalIdOf :: "nat \<Rightarrow> store \<Rightarrow> string option option" where
  "externalIdOf i st = map_option externalJobId (findJobById i st)"

text \<open>
  Well-formed stores: every row has an id below the sequence, and no id occurs twice.
  Well-formed systems: moreover every pending execution holds a job of the store, with
  the external id the store has for it.
\<close>

definition store_ok :: "store \<Rightarrow> bool" where
  "store_ok st =
     (list_all (\<lambda>j. case job_id j of None \<Rightarrow> False | Some i \<Rightarrow> i < nextJobId st) (jobRows st)
      \<and> distinct (map job_id (jobRows st)))"

definition task_ok :: "store \<Rightarrow> IngestionJob \<times> Document list \<Rightarrow> bool" where
  "task_ok st task =
     (case job_id (fst task) of
        None \<Rightarrow> False
      | Some i \<Rightarrow> externalIdOf i st = Some (externalJobId (fst task)))"

definition system_ok :: "system \<Rightarrow> bool" where
  "system_ok s = (store_ok (sys_store s) \<and> list_all (task_ok (sys_store s)) (pending s))"

text \<open>Every job of the first store is a job of the second, with the same external id.\<close>

definition ext_preserved :: "store \<Rightarrow> store \<Rightarrow> bool" where
  "ext_preserved st st' = (\<forall>i e. externalIdOf i st = Some e \<longrightarrow> externalIdOf i st' = Some e)"

text \<open>
  What an execution for the job \<open>i\<close>, whose external id is \<open>e\<close>, may do to the store:
  other jobs stay as they are, the job does not disappear, a well-formed store stays
  well-formed, and the external id of the job stays \<open>e\<close>.
\<close>

definition job_frame :: "nat \<Rightarrow> string option \<Rightarrow> store \<Rightarrow> store \<Rightarrow> bool" where
  "job_frame i e st st' =
     ((\<forall>k. k \<noteq> i \<longrightarrow> findJobById k st' = findJobById k st)
      \<and> (findJobById i st \<noteq> None \<longrightarrow> findJobById i st' \<noteq> None)
      \<and> (store_ok st \<and> findJobById i st \<noteq> None \<longrightarrow> store_ok st')
      \<and> (externalIdOf i st = Some e \<longrightarrow> externalIdOf i st' = Some e))"

text \<open>The fields of the job object that an execution never assigns.\<close>

definition same_job :: "IngestionJob \<Rightarrow> IngestionJob \<Rightarrow> bool" where
  "same_job job job' =
     (job_id job' = job_id job \<and> externalJobId job' = externalJobId job
      \<and> retryCount job' = retryCount job \<and> maxRetries job' = maxRetries job
      \<and> ingestionType job' = ingestionType job \<and> parameters job' = parameters job)"

text \<open>A job object as the failure update leaves it, for an execution started with \<open>job\<close>.\<close>

definition failed_by :: "process_env \<Rightarrow> IngestionJob \<Rightarrow> IngestionJob \<Rightarrow> bool" where
  "failed_by env job j =
     (status j = FAILED \<and> errorMessage j \<noteq> None \<and> errorMessage j \<noteq> Some []
      \<and> completedAt j = Some (completedNow env)
      \<and> (retryCount job < maxRetries job
           \<longrightarrow> nextRetryAt j = Some (calculateNextRetry (retryNow env) job)))"

section \<open>Example values\<close>

text \<open>Concrete inputs, at which the theorems below are instantiated.\<close>

definition example_doc :: Document where
  "example_doc =
     \<lparr>doc_id = 1, doc_title = ''Invoice'', doc_filePath = ''/uploads/invoice.pdf'',
      doc_originalFileName = ''invoice.pdf'', doc_mimeType = ''application/pdf'',
      doc_createdById = 1\<rparr>"

definition example_failed_job :: IngestionJob where
  "example_failed_job =
     \<lparr>job_id = Some 1, name = ''Invoices'', description = None, ingestionType = OCR,
      status = FAILED, progress = 50, errorMessage = Some ''boom'', retryCount = 0,
      maxRetries = 3, parameters = JObj [],
      inputData = Some \<lparr>documentIds = [1], documents = [snapshotOf example_doc]\<rparr>,
      outputData = None, externalJobId = Some ''ext_job_1700000000000_abc'',
      startedAt = Some 1700000000100, completedAt = Some 1700000004000,
      nextRetryAt = Some 1700000064000, createdById = 1\<rparr>"

definition example_store :: store where
  "example_store = \<lparr>jobRows = [example_failed_job], documentRows = [example_doc], nextJobId = 2\<rparr>"

definition example_empty_store :: store where
  "example_empty_store = \<lparr>jobRows = [], documentRows = [example_doc], nextJobId = 1\<rparr>"

definition example_trigger_env :: trigger_env where
  "example_trigger_env =
     \<lparr>isoNow = ''2023-11-14T22:13:20.000Z'', dateNow = 1700000000000, randomSuffix = ''abc''\<rparr>"

definition example_dto :: TriggerIngestionDto where
  "example_dto =
     \<lparr>dto_name = Some ''Invoices'', dto_description = None, dto_type = OCR,
      dto_documentIds = [1], dto_parameters = None, dto_maxRetries = Some 3\<rparr>"

text \<open>An invoker that reports failure, and one that throws an \<open>Error\<close>.\<close>

definition example_failing_env :: process_env where
  "example_failing_env =
     \<lparr>startedNow = 1700000000100, completedNow = 1700000004000, retryNow = 1700000004000,
      processDocuments =
        (\<lambda>t ds ps. Resolves \<lparr>res_success = False, res_data = None, res_error = Some ''boom''\<rparr>),
      tryPersist = (\<lambda>k. None), catchPersist = None\<rparr>"

definition example_throwing_env :: process_env where
  "example_throwing_env =
     \<lparr>startedNow = 1700000000100, completedNow = 1700000004000, retryNow = 1700000004000,
      processDocuments = (\<lambda>t ds ps. Rejects (Thrown (Some ''connection reset''))),
      tryPersist = (\<lambda>k. None), catchPersist = None\<rparr>"


definition example_nullish_env :: process_env where
  "example_nullish_env =
     \<lparr>startedNow = 1700000000100, completedNow = 1700000004000, retryNow = 1700000004000,
      processDocuments = (\<lambda>t ds ps. Rejects Nullish),
      tryPersist = (\<lambda>k. None), catchPersist = None\<rparr>"

text \<open>A job as a trigger leaves it, waiting for its execution, and the store that holds it.\<close>

definition example_pending_job :: IngestionJob where
  "example_pending_job =
     example_failed_job\<lparr>status := PENDING, progress := 0, errorMessage := None,
                        startedAt := None, completedAt := None, nextRetryAt := None\<rparr>"

definition example_pending_store :: store where
  "example_pending_store =
     \<lparr>jobRows = [example_pending_job], documentRows = [example_doc], nextJobId = 2\<rparr>"

text \<open>Webhook deliveries for the stored job: progress 0, and an inherited property name as status.\<close>

definition example_update :: StatusUpdate where
  "example_update =
     \<lparr>su_status = ''processing'', su_progress = Some 0, su_error = None, su_output = None\<rparr>"

definition example_update_inherited :: StatusUpdate where
  "example_update_inherited =
     \<lparr>su_status = ''constructor'', su_progress = None, su_error = None, su_output = None\<rparr>"

text \<open>A trigger on the empty store, and the job its execution ends with when the invoker fails.\<close>

definition example_triggered :: trigger_result where
  "example_triggered = projr (triggerIngestion example_trigger_env example_dto 1 example_empty_store)"

definition example_first_failure :: IngestionJob where
  "example_first_failure =
     jobAfter (runScheduled example_failing_env (triggerScheduled example_triggered)
                 (afterAssign example_triggered))"

text \<open>A trigger that asks for no retries at all.\<close>

definition example_dto_zero :: TriggerIngestionDto where
  "example_dto_zero = example_dto\<lparr>dto_maxRetries := Some 0\<rparr>"

definition example_triggered_zero :: trigger_result where
  "example_triggered_zero =
     projr (triggerIngestion example_trigger_env example_dto_zero 1 example_empty_store)"

text \<open>
  The service started on the empty store; two triggers that read the same clock value and
  draw the same random suffix; and a longer history after one trigger: the execution
  fails, a retry is requested, a webhook delivery arrives, the retried execution fails.
\<close>

definition example_system :: system where
  "example_system = \<lparr>sys_store = example_empty_store, pending = []\<rparr>"

definition example_same_draw :: "request list" where
  "example_same_draw =
     [Trigger example_trigger_env example_dto 1, Trigger example_trigger_env example_dto 1]"

definition example_history :: "request list" where
  "example_history =
     [Execute example_failing_env 0, Retry 1 1,
      Webhook 1700000005000 ''ext_job_1700000000000_abc'' example_update,
      Execute example_throwing_env 0]"

section \<open>Properties\<close>

subsection \<open>The store\<close>

lemma find_map_replace:
  "P x \<Longrightarrow> find P (map (\<lambda>r. if P r then x else r) xs) = (if find P xs = None then None else Some x)"
  by (induction xs) auto

lemma find_append:
  "find P (xs @ ys) = (case find P xs of None \<Rightarrow> find P ys | Some x \<Rightarrow> Some x)"
  by (induction xs) auto

lemma fst_save: "job_id job = Some i \<Longrightarrow> fst (save job st) = job"
  by (simp add: save_def)

lemma findJobById_save_same:
  "job_id job = Some i \<Longrightarrow> findJobById i (snd (save job st)) = Some job"
  by (auto simp: save_def findJobById_def find_append find_map_replace[where P="\<lambda>r. job_id r = Some i"])

lemma find_replace_other:
  "job_id x = Some i \<Longrightarrow> k \<noteq> i \<Longrightarrow>
   find (\<lambda>j. job_id j = Some k) (map (\<lambda>r. if job_id r = Some i then x else r) xs)
   = find (\<lambda>j. job_id j = Some k) xs"
  by (induction xs) auto

lemma findJobById_save_other:
  "job_id job = Some i \<Longrightarrow> k \<noteq> i \<Longrightarrow> findJobById k (snd (save job st)) = findJobById k st"
  by (auto simp: save_def findJobById_def find_replace_other find_append split: option.splits)

lemma documentRows_save: "documentRows (snd (save job st)) = documentRows st"
  by (auto simp: save_def Let_def split: option.splits)

lemma nextJobId_save_existing: "job_id job = Some i \<Longrightarrow> nextJobId (snd (save job st)) = nextJobId st"
  by (auto simp: save_def)

lemma map_job_id_replace:
  "job_id x = Some i \<Longrightarrow> map job_id (map (\<lambda>r. if job_id r = Some i then x else r) xs) = map job_id xs"
  by (induction xs) auto

lemma store_ok_save_existing:
  "store_ok st \<Longrightarrow> job_id job = Some i \<Longrightarrow> findJobById i st \<noteq> None \<Longrightarrow> store_ok (snd (save job st))"
  unfolding store_ok_def
  by (auto simp: save_def map_job_id_replace list_all_iff simp del: map_map split: option.splits)

lemma findJobById_None_iff: "findJobById i st = None \<longleftrightarrow> Some i \<notin> set (map job_id (jobRows st))"
  by (force simp: findJobById_def find_None_iff)

lemma store_ok_fresh: "store_ok st \<Longrightarrow> findJobById (nextJobId st) st = None"
  by (auto simp: store_ok_def findJobById_def find_None_iff list_all_iff split: option.splits)

lemma save_new:
  "job_id job = None \<Longrightarrow>
   save job st = (job\<lparr>job_id := Some (nextJobId st)\<rparr>,
                  st\<lparr>jobRows := jobRows st @ [job\<lparr>job_id := Some (nextJobId st)\<rparr>], nextJobId := Suc (nextJobId st)\<rparr>)"
  by (simp add: save_def Let_def)

lemma store_ok_save_new:
  "store_ok st \<Longrightarrow> job_id job = None \<Longrightarrow> store_ok (snd (save job st))"
  unfolding store_ok_def
  by (auto simp: save_new list_all_iff split: option.splits)

lemma findJobById_save_new_other:
  "store_ok st \<Longrightarrow> job_id job = None \<Longrightarrow> k \<noteq> nextJobId st \<Longrightarrow>
   findJobById k (snd (save job st)) = findJobById k st"
  by (auto simp: save_new findJobById_def find_append split: option.splits)

lemma findJobById_save_new_same:
  "store_ok st \<Longrightarrow> job_id job = None \<Longrightarrow>
   findJobById (nextJobId st) (snd (save job st)) = Some (job\<lparr>job_id := Some (nextJobId st)\<rparr>)"
  using store_ok_fresh[of st]
  by (auto simp: save_new findJobById_def find_append split: option.splits)


subsection \<open>Retry backoff\<close>

text \<open>
  C1. For a job with retry count \<open>r\<close>, \<open>calculateNextRetry\<close> returns the current instant
  plus \<open>min(2^r, 60)\<close> minutes; for \<open>r = 0,1,2,3,4,5,6\<close> the delay is 1, 2, 4, 8, 16, 32
  and 60 minutes.
\<close>

theorem calculateNextRetry_backoff:
  "calculateNextRetry now job = now + int (min (2 ^ retryCount job) 60) * 60000
   \<and> delay_minutes now job = int (min (2 ^ retryCount job) 60)
   \<and> map (\<lambda>r. delay_minutes now (job\<lparr>retryCount := r\<rparr>)) [0, 1, 2, 3, 4, 5, 6]
       = [1, 2, 4, 8, 16, 32, 60]"
  by (simp add: calculateNextRetry_def delay_minutes_def Let_def)

subsection \<open>retryJob\<close>

lemma findOne_Inr:
  "findOne i userId st = Inr job \<longleftrightarrow> findJobById i st = Some job \<and> createdById job = userId"
  by (auto simp: findOne_def split: option.splits)

lemma findJobById_job_id: "findJobById i st = Some job \<Longrightarrow> job_id job = Some i"
  by (auto simp: findJobById_def find_Some_iff)

text \<open>
  C2. For a job that exists and is owned by the caller, \<open>retryJob\<close> fails with one of its
  two \<open>BadRequestException\<close>s exactly when the job's status is not FAILED or its
  \<open>retryCount\<close> has reached \<open>maxRetries\<close>; in every other case the retry is accepted.
\<close>

theorem retryJob_rejects_iff:
  assumes "findOne i userId st = Inr job"
  shows "(retryJob i userId st \<in> {Inl (BadRequestException ''Only failed jobs can be retried''),
                                   Inl (BadRequestException ''Maximum retry attempts reached'')}
          \<longleftrightarrow> (status job \<noteq> FAILED \<or> retryCount job \<ge> maxRetries job))
       \<and> ((\<exists>r. retryJob i userId st = Inr r)
          \<longleftrightarrow> \<not> (status job \<noteq> FAILED \<or> retryCount job \<ge> maxRetries job))
       \<and> (\<forall>msg. retryJob i userId st \<noteq> Inl (NotFoundException msg))"
  using assms by (auto simp: retryJob_def Let_def split: prod.splits)

theorem retryJob_rejects_iff_witness:
  "findOne 1 1 example_store = Inr example_failed_job
   \<and> (\<exists>r. retryJob 1 1 example_store = Inr r)"
  using retryJob_rejects_iff [of 1 1 example_store example_failed_job]
  by (simp add: findOne_def findJobById_def example_store_def example_failed_job_def)

lemma retryJob_Inr:
  assumes "retryJob i userId st = Inr r"
  shows "\<exists>job. findOne i userId st = Inr job
           \<and> findJobById i (afterRetry r)
               = Some (job\<lparr>status := RETRYING, progress := 0, errorMessage := None,
                            retryCount := retryCount job + 1, nextRetryAt := None\<rparr>)
           \<and> (\<forall>k. k \<noteq> i \<longrightarrow> findJobById k (afterRetry r) = findJobById k st)
           \<and> documentRows (afterRetry r) = documentRows st
           \<and> retryScheduled r
               = (job\<lparr>status := RETRYING, progress := 0, errorMessage := None,
                        retryCount := retryCount job + 1, nextRetryAt := None\<rparr>,
                  filter (\<lambda>d. doc_id d \<in> set (case inputData job of None \<Rightarrow> [] | Some d \<Rightarrow> documentIds d))
                         (documentRows st))"
proof -
  from assms obtain job where f: "findOne i userId st = Inr job"
    by (auto simp: retryJob_def split: sum.splits)
  then have jid: "job_id job = Some i"
    by (auto simp: findOne_Inr dest: findJobById_job_id)
  define job' where "job' = job\<lparr>status := RETRYING, progress := 0, errorMessage := None,
                            retryCount := retryCount job + 1, nextRetryAt := None\<rparr>"
  have jid': "job_id job' = Some i" by (simp add: job'_def jid)
  from assms f have ok: "status job = FAILED" "retryCount job < maxRetries job"
    by (auto simp: retryJob_def Let_def split: if_splits prod.splits)
  have r: "r = \<lparr>afterRetry = snd (save job' st),
                retryScheduled = (fst (save job' st),
                   findDocumentsIn (case inputData job' of None \<Rightarrow> [] | Some d \<Rightarrow> documentIds d) (snd (save job' st)))\<rparr>"
    using assms f ok by (auto simp: retryJob_def Let_def job'_def split: prod.splits)
  show ?thesis
    apply (rule exI[of _ job])
    apply (simp add: f r findJobById_save_same[OF jid'] findJobById_save_other[OF jid'] fst_save[OF jid']
        documentRows_save findDocumentsIn_def)
    apply (simp add: job'_def)
    done
qed

text \<open>
  C6. A successful \<open>retryJob\<close> turns the job into exactly this: status RETRYING, progress
  0, no error message, \<open>retryCount\<close> one higher, no \<open>nextRetryAt\<close>, every other field as
  it was. That job is what the store then holds under the id (no other job and no
  document is touched), and the execution is started with it and with the documents whose
  ids are listed in its \<open>inputData\<close>.
\<close>

theorem retryJob_transition:
  assumes "retryJob i userId st = Inr r"
  shows "\<exists>job. findOne i userId st = Inr job
           \<and> findJobById i (afterRetry r)
               = Some (job\<lparr>status := RETRYING, progress := 0, errorMessage := None,
                            retryCount := retryCount job + 1, nextRetryAt := None\<rparr>)
           \<and> (\<forall>k. k \<noteq> i \<longrightarrow> findJobById k (afterRetry r) = findJobById k st)
           \<and> documentRows (afterRetry r) = documentRows st
           \<and> retryScheduled r
               = (job\<lparr>status := RETRYING, progress := 0, errorMessage := None,
                        retryCount := retryCount job + 1, nextRetryAt := None\<rparr>,
                  filter (\<lambda>d. doc_id d \<in> set (case inputData job of None \<Rightarrow> [] | Some d \<Rightarrow> documentIds d))
                         (documentRows st))"
  using assms by (rule retryJob_Inr)

theorem retryJob_transition_witness:
  "\<exists>r. retryJob 1 1 example_store = Inr r
      \<and> map_option status (findJobById 1 (afterRetry r)) = Some RETRYING
      \<and> map_option retryCount (findJobById 1 (afterRetry r)) = Some 1
      \<and> map doc_id (snd (retryScheduled r)) = [1]"
proof -
  have f: "findOne 1 1 example_store = Inr example_failed_job"
    by (simp add: findOne_def findJobById_def example_store_def example_failed_job_def)
  obtain r where r: "retryJob 1 1 example_store = Inr r"
    using f by (simp add: retryJob_def Let_def example_failed_job_def split_beta)
  from retryJob_transition [OF r] f show ?thesis
    using r by (auto simp: example_failed_job_def example_store_def example_doc_def)
qed

subsection \<open>processJob\<close>

lemma fst_save_existing: "job_id job \<noteq> None \<Longrightarrow> fst (save job st) = job"
  by (auto simp: save_def)

lemma save_existing:
  "job_id job = Some i \<Longrightarrow> save job st = (job, snd (save job st))"
  by (simp add: save_def)

lemma externalIdOf_save_same:
  "job_id J = Some i \<Longrightarrow> externalIdOf i (snd (save J st)) = Some (externalJobId J)"
  by (simp add: externalIdOf_def findJobById_save_same)

lemma markFailed_fields:
  "job_id (markFailed env m j) = job_id j"
  "status (markFailed env m j) = FAILED"
  "errorMessage (markFailed env m j) = Some (str_or m ''Processing failed'')"
  "retryCount (markFailed env m j) = retryCount j"
  "maxRetries (markFailed env m j) = maxRetries j"
  "externalJobId (markFailed env m j) = externalJobId j"
  "ingestionType (markFailed env m j) = ingestionType j"
  "parameters (markFailed env m j) = parameters j"
  "completedAt (markFailed env m j) = Some (completedNow env)"
  "nextRetryAt (markFailed env m j)
     = (if retryCount j < maxRetries j then Some (calculateNextRetry (retryNow env) j) else nextRetryAt j)"
  by (simp_all add: markFailed_def Let_def calculateNextRetry_def)

lemma str_or_nonempty: "b \<noteq> [] \<Longrightarrow> str_or a b \<noteq> []"
  by (cases a) (auto simp: str_or_def)

lemma mapIngestionType_Inl_nonempty:
  "mapIngestionTypeToProcessingType t = Inl m \<Longrightarrow> m \<noteq> []"
  by (cases t) auto

lemma same_job_refl: "same_job job job"
  by (simp add: same_job_def)

lemma same_job_trans: "same_job a b \<Longrightarrow> same_job b c \<Longrightarrow> same_job a c"
  by (simp add: same_job_def)

lemma same_job_markFailed: "same_job job j \<Longrightarrow> same_job job (markFailed env m j)"
  by (simp add: same_job_def markFailed_fields)

lemma calculateNextRetry_same: "retryCount j = retryCount job \<Longrightarrow> calculateNextRetry now j = calculateNextRetry now job"
  by (simp add: calculateNextRetry_def)

lemma job_frame_refl: "job_frame i e st st"
  by (simp add: job_frame_def)

lemma job_frame_trans: "job_frame i e a b \<Longrightarrow> job_frame i e b c \<Longrightarrow> job_frame i e a c"
  by (auto simp: job_frame_def)

lemma job_frame_save:
  assumes "job_id J = Some i" and "externalJobId J = e"
  shows "job_frame i e st (snd (save J st))"
  unfolding job_frame_def
  using assms findJobById_save_same [OF assms(1), of st] findJobById_save_other [OF assms(1)]
    store_ok_save_existing [OF _ assms(1), of st] externalIdOf_save_same [OF assms(1), of st]
  by auto

lemma persist_Inr:
  "persist r J st = Inr (J', s') \<Longrightarrow> job_id J = Some i \<Longrightarrow> r = None \<and> J' = J \<and> s' = snd (save J st)"
  by (cases r) (auto simp: persist_def fst_save_existing dest: arg_cong [where f = fst] arg_cong [where f = snd])

lemma persist_Inl: "persist r J st = Inl t \<Longrightarrow> r = Some t"
  by (cases r) (auto simp: persist_def)

lemma persist_None: "job_id J = Some i \<Longrightarrow> persist None J st = Inr (J, snd (save J st))"
  by (simp add: persist_def save_existing [symmetric])

lemma progressLoop_done: "\<not> k < n \<Longrightarrow> progressLoop env n k job st = Inr (job, st)"
  by (simp add: progressLoop.simps)

lemma progressLoop_step_ok:
  "job_id job = Some i \<Longrightarrow> k < n \<Longrightarrow> tryPersist env (k + 1) = None \<Longrightarrow>
   progressLoop env n k job st
     = progressLoop env n (Suc k) (job\<lparr>progress := Math_round_div ((k + 1) * 100) n\<rparr>)
         (snd (save (job\<lparr>progress := Math_round_div ((k + 1) * 100) n\<rparr>) st))"
  by (subst progressLoop.simps) (simp add: Let_def persist_def split_beta fst_save_existing)

lemma progressLoop_step_rejected:
  "k < n \<Longrightarrow> tryPersist env (k + 1) = Some t \<Longrightarrow>
   progressLoop env n k job st
     = Inl (t, job\<lparr>progress := Math_round_div ((k + 1) * 100) n\<rparr>, st)"
  by (subst progressLoop.simps) (simp add: Let_def persist_def)

text \<open>What the loop leaves, whether it ends or throws.\<close>

lemma progressLoop_shape:
  "job_id job = Some i \<Longrightarrow>
   (case progressLoop env n k job st of
      Inl (t, j, s) \<Rightarrow>
        same_job job j \<and> status j = status job \<and> job_frame i (externalJobId job) st s
        \<and> (\<exists>p. tryPersist env p = Some t)
    | Inr (j, s) \<Rightarrow>
        same_job job j \<and> status j = status job \<and> job_frame i (externalJobId job) st s)"
proof (induction "n - k" arbitrary: k job st)
  case 0
  then show ?case by (simp add: progressLoop_done same_job_refl job_frame_refl)
next
  case (Suc d)
  then have lt: "k < n" and d: "d = n - Suc k" by simp_all
  define job' where "job' = job\<lparr>progress := Math_round_div ((k + 1) * 100) n\<rparr>"
  have jid: "job_id job' = Some i" using Suc.prems by (simp add: job'_def)
  have sj: "same_job job job'" "status job' = status job" "externalJobId job' = externalJobId job"
    by (simp_all add: same_job_def job'_def)
  show ?case
  proof (cases "tryPersist env (k + 1)")
    case (Some t)
    show ?thesis
      using progressLoop_step_rejected [OF lt Some, of job st] Some
      by (auto simp: same_job_def job_frame_refl)
  next
    case None
    have eq: "progressLoop env n k job st = progressLoop env n (Suc k) job' (snd (save job' st))"
      using progressLoop_step_ok [OF Suc.prems lt None, of st] by (simp add: job'_def)
    have fr: "job_frame i (externalJobId job) st (snd (save job' st))"
      by (rule job_frame_save [OF jid sj(3)])
    from Suc.hyps(1) [OF d jid, of "snd (save job' st)"] show ?thesis
      unfolding eq
      using sj fr
      by (auto simp: sj(3) split: sum.splits intro: same_job_trans job_frame_trans)
  qed
qed

lemma progressLoop_all_ok:
  "job_id job = Some i \<Longrightarrow> (\<And>p. tryPersist env p = None) \<Longrightarrow>
   \<exists>s. progressLoop env n k job st
          = Inr (if k < n then job\<lparr>progress := Math_round_div (n * 100) n\<rparr> else job, s)"
proof (induction "n - k" arbitrary: k job st)
  case 0
  then show ?case by (simp add: progressLoop_done)
next
  case (Suc d)
  then have lt: "k < n" and d: "d = n - Suc k" by simp_all
  have jid: "job_id (job\<lparr>progress := Math_round_div ((k + 1) * 100) n\<rparr>) = Some i"
    using Suc.prems by simp
  note eq = progressLoop_step_ok [OF Suc.prems(1) lt Suc.prems(2), of st]
  show ?case
  proof (cases "Suc k < n")
    case True
    then show ?thesis
      using Suc.hyps(1) [OF d jid Suc.prems(2)] lt unfolding eq by simp
  next
    case False
    with lt have "Suc k = n" by simp
    then show ?thesis
      using lt unfolding eq by (auto simp: progressLoop_done)
  qed
qed

lemma failed_by_markFailed: "same_job job j \<Longrightarrow> failed_by env job (markFailed env m j)"
  using calculateNextRetry_same [of j job "retryNow env"]
  by (simp add: failed_by_def same_job_def markFailed_fields str_or_nonempty)

text \<open>What the \<open>try\<close> block leaves, and where a thrown value comes from.\<close>

lemma processJob_try_shape:
  assumes jid: "job_id job = Some i"
  shows "(case processJob_try env job docs st of
      Inl (t, j, s) \<Rightarrow>
        same_job job j \<and> job_frame i (externalJobId job) st s
        \<and> ((\<exists>p. tryPersist env p = Some t)
            \<or> (\<exists>pt ds ps. processDocuments env pt ds ps = Rejects t)
            \<or> (\<exists>msg. t = Thrown (Some msg)))
    | Inr (j, s) \<Rightarrow>
        same_job job j \<and> job_frame i (externalJobId job) st s \<and> findJobById i s = Some j
        \<and> (status j = COMPLETED
               \<and> (\<exists>pt ds ps res. processDocuments env pt ds ps = Resolves res \<and> res_success res)
            \<or> failed_by env job j))"
proof -
  define job0 where "job0 = job\<lparr>status := PROCESSING, startedAt := Some (startedNow env)\<rparr>"
  have jid0: "job_id job0 = Some i" using jid by (simp add: job0_def)
  have sj0: "same_job job job0" by (simp add: same_job_def job0_def)
  have e0: "externalJobId job0 = externalJobId job" by (simp add: job0_def)
  have ty0: "ingestionType job0 = ingestionType job" by (simp add: job0_def)
  note unf = processJob_try_def Let_def job0_def [symmetric]
  show ?thesis
  proof (cases "tryPersist env 0")
    case (Some t)
    then show ?thesis
      using sj0 by (auto simp: unf persist_def job_frame_refl)
  next
    case None
    define st1 where "st1 = snd (save job0 st)"
    have p0: "persist (tryPersist env 0) job0 st = Inr (job0, st1)"
      by (simp add: None persist_None [OF jid0] st1_def)
    have fr1: "job_frame i (externalJobId job) st st1"
      unfolding st1_def by (rule job_frame_save [OF jid0 e0])
    show ?thesis
    proof (cases "mapIngestionTypeToProcessingType (ingestionType job)")
      case (Inl msg)
      then show ?thesis
        using sj0 fr1 by (simp add: unf p0 ty0)
    next
      case (Inr pt)
      note loop = progressLoop_shape [OF jid0, where env = env and n = 10 and k = 0 and st = st1]
      show ?thesis
      proof (cases "progressLoop env 10 0 job0 st1")
        case (Inl x)
        obtain t j s where x: "x = (t, j, s)" by (cases x) auto
        from loop have "same_job job0 j" "job_frame i (externalJobId job) st1 s"
          "\<exists>p. tryPersist env p = Some t"
          by (simp_all add: Inl x e0)
        then show ?thesis
          using sj0 fr1
          by (auto simp: unf p0 ty0 Inr Inl x intro: same_job_trans job_frame_trans)
      next
        case loopr: (Inr y)
        obtain job2 st2 where y: "y = (job2, st2)" by (cases y) auto
        from loop have sj2': "same_job job0 job2" and fr2': "job_frame i (externalJobId job) st1 st2"
          by (simp_all add: loopr y e0)
        have sj2: "same_job job job2" using sj0 sj2' by (rule same_job_trans)
        have fr2: "job_frame i (externalJobId job) st st2" using fr1 fr2' by (rule job_frame_trans)
        have jid2: "job_id job2 = Some i" using sj2 jid by (simp add: same_job_def)
        show ?thesis
        proof (cases "processDocuments env pt (map documentInfoOf docs) (parameters job2)")
          case (Rejects t)
          then show ?thesis
            using sj2 fr2 by (auto simp: unf p0 ty0 Inr loopr y)
        next
          case (Resolves res)
          define job3 where "job3 =
             (if res_success res
              then job2\<lparr>status := COMPLETED, progress := 100, outputData := res_data res,
                        completedAt := Some (completedNow env)\<rparr>
              else markFailed env (res_error res) job2)"
          have sj3: "same_job job job3"
            using sj2 by (auto simp: job3_def same_job_def markFailed_fields)
          have jid3: "job_id job3 = Some i" using sj3 jid by (simp add: same_job_def)
          have e3: "externalJobId job3 = externalJobId job" using sj3 by (simp add: same_job_def)
          have res3: "status job3 = COMPLETED \<and> res_success res \<or> failed_by env job job3"
            using failed_by_markFailed [OF sj2, of env "res_error res"] by (simp add: job3_def)
          have tryeq: "processJob_try env job docs st
                        = (case persist (tryPersist env 11) job3 st2 of
                             Inl t \<Rightarrow> Inl (t, job3, st2) | Inr saved \<Rightarrow> Inr saved)"
            unfolding job3_def by (simp add: unf p0 ty0 Inr loopr y Resolves)
          show ?thesis
          proof (cases "tryPersist env 11")
            case (Some t)
            then show ?thesis
              using sj3 fr2 by (auto simp: tryeq persist_def)
          next
            case None
            have fr3: "job_frame i (externalJobId job) st (snd (save job3 st2))"
              using fr2 job_frame_save [OF jid3 e3, of st2] by (rule job_frame_trans)
            show ?thesis
              using sj3 fr3 res3 Resolves findJobById_save_same [OF jid3, of st2]
              by (auto simp: tryeq None persist_None [OF jid3])
          qed
        qed
      qed
    qed
  qed
qed

lemma processJob_try_Inr:
  "processJob_try env job docs st = Inr r \<Longrightarrow> processJob env job docs st = Inr r"
  by (simp add: processJob_def)

lemma processJob_nullish:
  "processJob_try env job docs st = Inl (Nullish, j, s) \<Longrightarrow>
   processJob env job docs st = Inl (TypeErrorOnNullish, j\<lparr>status := FAILED\<rparr>, s)"
  by (simp add: processJob_def)

lemma processJob_rethrown:
  "processJob_try env job docs st = Inl (Thrown m, j, s) \<Longrightarrow> catchPersist env = Some t \<Longrightarrow>
   processJob env job docs st = Inl (Rethrown t, markFailed env m j, s)"
  by (simp add: processJob_def persist_def)

lemma processJob_caught:
  "processJob_try env job docs st = Inl (Thrown m, j, s) \<Longrightarrow> catchPersist env = None \<Longrightarrow>
   job_id j = Some i \<Longrightarrow>
   processJob env job docs st = Inr (markFailed env m j, snd (save (markFailed env m j) s))"
  by (simp add: processJob_def Let_def persist_None [where i = i] markFailed_fields)

text \<open>What the whole routine leaves, and why it rejects when it does.\<close>

lemma processJob_shape:
  assumes jid: "job_id job = Some i"
  shows "(case processJob env job docs st of
      Inl (r, j, s) \<Rightarrow>
        same_job job j \<and> job_frame i (externalJobId job) st s \<and> status j = FAILED
        \<and> (r = TypeErrorOnNullish
               \<and> ((\<exists>p. tryPersist env p = Some Nullish)
                   \<or> (\<exists>pt ds ps. processDocuments env pt ds ps = Rejects Nullish))
            \<or> (\<exists>t. r = Rethrown t \<and> catchPersist env = Some t))
    | Inr (j, s) \<Rightarrow>
        same_job job j \<and> job_frame i (externalJobId job) st s \<and> findJobById i s = Some j
        \<and> (status j = COMPLETED
               \<and> (\<exists>pt ds ps res. processDocuments env pt ds ps = Resolves res \<and> res_success res)
            \<or> failed_by env job j))"
proof (cases "processJob_try env job docs st")
  case (Inr r)
  then show ?thesis
    using processJob_try_shape [OF jid, where env = env and docs = docs and st = st] by (simp add: processJob_try_Inr)
next
  case (Inl x)
  obtain t j s where x: "x = (t, j, s)" by (cases x) auto
  from processJob_try_shape [OF jid, where env = env and docs = docs and st = st]
  have sj: "same_job job j" and fr: "job_frame i (externalJobId job) st s"
    and src: "(\<exists>p. tryPersist env p = Some t)
            \<or> (\<exists>pt ds ps. processDocuments env pt ds ps = Rejects t)
            \<or> (\<exists>msg. t = Thrown (Some msg))"
    by (simp_all add: Inl x)
  have jidj: "job_id j = Some i" using sj jid by (simp add: same_job_def)
  show ?thesis
  proof (cases t)
    case Nullish
    then show ?thesis
      using processJob_nullish [where env = env and job = job and docs = docs and st = st and j = j and s = s] Inl x sj fr src
      by (auto simp: same_job_def)
  next
    case (Thrown m)
    show ?thesis
    proof (cases "catchPersist env")
      case (Some t')
      then show ?thesis
        using processJob_rethrown [where env = env and job = job and docs = docs and st = st and m = m and j = j and s = s and t = t'] Inl x Thrown fr
          same_job_markFailed [OF sj, where env = env and m = m]
        by (simp add: markFailed_fields)
    next
      case None
      have e: "externalJobId (markFailed env m j) = externalJobId job"
        using sj by (simp add: markFailed_fields same_job_def)
      have jm: "job_id (markFailed env m j) = Some i" by (simp add: markFailed_fields jidj)
      have fr': "job_frame i (externalJobId job) st (snd (save (markFailed env m j) s))"
        using fr job_frame_save [OF jm e, of s] by (rule job_frame_trans)
      show ?thesis
        using processJob_caught [where env = env and job = job and docs = docs and st = st and m = m and j = j and s = s and i = i] Inl x Thrown None jidj fr'
          same_job_markFailed [OF sj, where env = env and m = m] failed_by_markFailed [OF sj, where env = env and m = m]
          findJobById_save_same [OF jm, of s]
        by simp
    qed
  qed
qed




lemma failed_by_not_processing: "failed_by env job j \<Longrightarrow> status j \<noteq> PROCESSING \<and> status j \<noteq> COMPLETED"
  by (simp add: failed_by_def)


lemma progressLoop_stored:
  "job_id job = Some i \<Longrightarrow> findJobById i st = Some job \<Longrightarrow>
   progressLoop env n k job st = Inr (j, s) \<Longrightarrow> findJobById i s = Some j"
proof (induction "n - k" arbitrary: k job st)
  case 0
  then show ?case by (simp add: progressLoop_done)
next
  case (Suc d)
  then have lt: "k < n" and d: "d = n - Suc k" by simp_all
  define job' where "job' = job\<lparr>progress := Math_round_div ((k + 1) * 100) n\<rparr>"
  have jid: "job_id job' = Some i" using Suc.prems by (simp add: job'_def)
  show ?case
  proof (cases "tryPersist env (k + 1)")
    case (Some t)
    then show ?thesis
      using progressLoop_step_rejected [OF lt Some, of job st] Suc.prems(3) by simp
  next
    case None
    have eq: "progressLoop env n k job st = progressLoop env n (Suc k) job' (snd (save job' st))"
      using progressLoop_step_ok [OF Suc.prems(1) lt None, of st] by (simp add: job'_def)
    show ?thesis
      using Suc.hyps(1) [OF d jid findJobById_save_same [OF jid]] Suc.prems(3)
      unfolding eq by blast
  qed
qed

lemma processJob_try_invoker_rejects_stored:
  assumes "job_id job = Some i" and ok: "\<And>p. tryPersist env p = None"
    and "mapIngestionTypeToProcessingType (ingestionType job) = Inr pt"
    and "processDocuments env pt (map documentInfoOf docs) (parameters job) = Rejects t"
  shows "\<exists>s. processJob_try env job docs st
           = Inl (t, job\<lparr>status := PROCESSING, startedAt := Some (startedNow env), progress := 100\<rparr>, s)
         \<and> findJobById i s
             = Some (job\<lparr>status := PROCESSING, startedAt := Some (startedNow env), progress := 100\<rparr>)"
proof -
  define job0 where "job0 = job\<lparr>status := PROCESSING, startedAt := Some (startedNow env)\<rparr>"
  have jid0: "job_id job0 = Some i" using assms(1) by (simp add: job0_def)
  from progressLoop_all_ok [OF jid0 ok, where n = 10 and k = 0 and st = "snd (save job0 st)"]
  obtain s where l: "progressLoop env 10 0 job0 (snd (save job0 st)) = Inr (job0\<lparr>progress := 100\<rparr>, s)"
    by (auto simp: Math_round_div_def)
  have st: "findJobById i s = Some (job0\<lparr>progress := 100\<rparr>)"
    by (rule progressLoop_stored [OF jid0 findJobById_save_same [OF jid0] l])
  have "processJob_try env job docs st = Inl (t, job0\<lparr>progress := 100\<rparr>, s)"
    using assms(3,4) l [unfolded job0_def] persist_None [OF jid0, of st, unfolded job0_def]
    by (simp add: processJob_try_def Let_def ok job0_def)
  then show ?thesis using st by (auto simp: job0_def)
qed




text \<open>
  What the routine does when the invoker rejects with \<open>undefined\<close>: the \<open>catch\<close> block
  raises on \<open>error.message\<close> after setting the status of the job object, before any
  persist.
\<close>

lemma processJob_nullish_example:
  "rejectionOf (processJob example_nullish_env example_pending_job [example_doc] example_pending_store)
     = Some TypeErrorOnNullish
   \<and> status (jobAfter (processJob example_nullish_env example_pending_job [example_doc] example_pending_store))
       = FAILED
   \<and> map_option status (findJobById 1 (storeAfter
         (processJob example_nullish_env example_pending_job [example_doc] example_pending_store)))
       = Some PROCESSING"
proof -
  have jid: "job_id example_pending_job = Some 1"
    by (simp add: example_pending_job_def example_failed_job_def)
  have ok: "\<And>p. tryPersist example_nullish_env p = None"
    by (simp add: example_nullish_env_def)
  have ty: "mapIngestionTypeToProcessingType (ingestionType example_pending_job) = Inr P_OCR"
    by (simp add: example_pending_job_def example_failed_job_def)
  have rj: "processDocuments example_nullish_env P_OCR (map documentInfoOf [example_doc])
              (parameters example_pending_job) = Rejects Nullish"
    by (simp add: example_nullish_env_def)
  from processJob_try_invoker_rejects_stored [OF jid ok ty rj, of example_pending_store]
  obtain s where t: "processJob_try example_nullish_env example_pending_job [example_doc] example_pending_store
       = Inl (Nullish, example_pending_job\<lparr>status := PROCESSING,
                startedAt := Some (startedNow example_nullish_env), progress := 100\<rparr>, s)"
    and st: "findJobById 1 s = Some (example_pending_job\<lparr>status := PROCESSING,
                startedAt := Some (startedNow example_nullish_env), progress := 100\<rparr>)"
    by blast
  show ?thesis
    using st by (simp add: processJob_nullish [OF t])
qed

subsection \<open>triggerIngestion\<close>

lemma job_id_createJob: "job_id (createJob env dto u docs) = None"
  by (simp add: createJob_def)

lemma triggerIngestion_Inr:
  assumes "triggerIngestion tenv dto u st = Inr r"
  shows "\<exists>docs. validateDocuments (dto_documentIds dto) u st = Inr docs
          \<and> afterCreate r = snd (save (createJob tenv dto u docs) st)
          \<and> afterAssign r
              = snd (save ((createJob tenv dto u docs)
                             \<lparr>job_id := Some (nextJobId st),
                              externalJobId := Some (generateExternalJobId tenv)\<rparr>)
                          (afterCreate r))
          \<and> triggerScheduled r
              = ((createJob tenv dto u docs)
                   \<lparr>job_id := Some (nextJobId st),
                    externalJobId := Some (generateExternalJobId tenv)\<rparr>, docs)"
proof -
  from assms obtain docs where v: "validateDocuments (dto_documentIds dto) u st = Inr docs"
    by (auto simp: triggerIngestion_def split: sum.splits)
  show ?thesis
    using assms
    by (intro exI [of _ docs])
       (auto simp: triggerIngestion_def v Let_def split_beta save_new [OF job_id_createJob]
          fst_save_existing)
qed

lemma processJob_returns:
  assumes "job_id job = Some i" and "\<And>p. tryPersist env p = None" and "catchPersist env = None"
    and "\<And>pt ds ps. processDocuments env pt ds ps \<noteq> Rejects Nullish"
  shows "\<exists>j s. processJob env job docs st = Inr (j, s)"
proof (cases "processJob env job docs st")
  case (Inr r)
  then show ?thesis by (cases r) auto
next
  case (Inl x)
  obtain r j s where x: "x = (r, j, s)" by (cases x) auto
  from processJob_shape [OF assms(1), where env = env and docs = docs and st = st]
  show ?thesis using assms(2-4) by (simp add: Inl x)
qed

lemma first_execution_failure:
  assumes "triggerIngestion tenv dto u st = Inr r"
    and "dto_maxRetries dto = Some 3"
    and "runScheduled penv (triggerScheduled r) (afterAssign r) = Inr (job', st')"
    and "status job' \<noteq> COMPLETED"
  shows "status job' = FAILED
       \<and> retryCount job' = 0
       \<and> maxRetries job' = 3
       \<and> completedAt job' = Some (completedNow penv)
       \<and> nextRetryAt job' = Some (retryNow penv + 60000)
       \<and> findJobById (nextJobId st) st' = Some job'"
proof -
  from triggerIngestion_Inr [OF assms(1)] obtain docs where
    sch: "triggerScheduled r
              = ((createJob tenv dto u docs)
                   \<lparr>job_id := Some (nextJobId st),
                    externalJobId := Some (generateExternalJobId tenv)\<rparr>, docs)"
    by blast
  define job where "job = (createJob tenv dto u docs)
                   \<lparr>job_id := Some (nextJobId st),
                    externalJobId := Some (generateExternalJobId tenv)\<rparr>"
  have jid: "job_id job = Some (nextJobId st)" by (simp add: job_def)
  have rc: "retryCount job = 0" "maxRetries job = 3"
    using assms(2) by (simp_all add: job_def createJob_def)
  have run: "processJob penv job docs (afterAssign r) = Inr (job', st')"
    using assms(3) by (simp add: runScheduled_def sch job_def)
  from processJob_shape [OF jid, where env = penv and docs = docs and st = "afterAssign r"]
  have "same_job job job'" "findJobById (nextJobId st) st' = Some job'" "failed_by penv job job'"
    using assms(4) by (simp_all add: run)
  then show ?thesis
    using rc by (simp add: same_job_def failed_by_def calculateNextRetry_def)
qed

lemma example_trigger_accepted:
  "triggerIngestion example_trigger_env example_dto 1 example_empty_store = Inr example_triggered"
proof -
  have "\<exists>r. triggerIngestion example_trigger_env example_dto 1 example_empty_store = Inr r"
    by (simp add: triggerIngestion_def validateDocuments_def findDocumentsIn_def Let_def split_beta
        example_dto_def example_empty_store_def example_doc_def)
  then show ?thesis by (auto simp: example_triggered_def)
qed

lemma example_first_failure_run:
  "runScheduled example_failing_env (triggerScheduled example_triggered) (afterAssign example_triggered)
     = Inr (example_first_failure,
            storeAfter (runScheduled example_failing_env (triggerScheduled example_triggered)
                          (afterAssign example_triggered)))"
  and example_first_failure_not_completed: "status example_first_failure \<noteq> COMPLETED"
proof -
  from triggerIngestion_Inr [OF example_trigger_accepted] obtain docs where
    sch: "triggerScheduled example_triggered
            = ((createJob example_trigger_env example_dto 1 docs)
                 \<lparr>job_id := Some (nextJobId example_empty_store),
                  externalJobId := Some (generateExternalJobId example_trigger_env)\<rparr>, docs)"
    by blast
  define job where "job = (createJob example_trigger_env example_dto 1 docs)
                 \<lparr>job_id := Some (nextJobId example_empty_store),
                  externalJobId := Some (generateExternalJobId example_trigger_env)\<rparr>"
  have jid: "job_id job = Some (nextJobId example_empty_store)" by (simp add: job_def)
  have run: "runScheduled example_failing_env (triggerScheduled example_triggered) (afterAssign example_triggered)
      = processJob example_failing_env job docs (afterAssign example_triggered)"
    by (simp add: runScheduled_def sch job_def)
  have "\<exists>j s. processJob example_failing_env job docs (afterAssign example_triggered) = Inr (j, s)"
    by (rule processJob_returns [OF jid]) (simp_all add: example_failing_env_def)
  then obtain j s where r: "processJob example_failing_env job docs (afterAssign example_triggered) = Inr (j, s)"
    by blast
  show "runScheduled example_failing_env (triggerScheduled example_triggered) (afterAssign example_triggered)
     = Inr (example_first_failure,
            storeAfter (runScheduled example_failing_env (triggerScheduled example_triggered)
                          (afterAssign example_triggered)))"
    by (simp add: example_first_failure_def run r)
  from processJob_shape [OF jid, where env = example_failing_env and docs = docs
      and st = "afterAssign example_triggered"]
  have "status j = COMPLETED
          \<and> (\<exists>pt ds ps res. processDocuments example_failing_env pt ds ps = Resolves res \<and> res_success res)
        \<or> failed_by example_failing_env job j"
    by (simp add: r)
  moreover have "\<not> (\<exists>pt ds ps res. processDocuments example_failing_env pt ds ps = Resolves res \<and> res_success res)"
    by (auto simp: example_failing_env_def)
  ultimately have "failed_by example_failing_env job j" by blast
  then show "status example_first_failure \<noteq> COMPLETED"
    by (simp add: example_first_failure_def run r failed_by_def)
qed

text \<open>
  C3 (as amended). When a job triggered with \<open>maxRetries = 3\<close> fails its first
  execution, the resulting job, which is the one the store then holds, has status FAILED,
  \<open>retryCount\<close> still 0, and \<open>nextRetryAt\<close> one minute after the clock reading of
  \<open>calculateNextRetry\<close>: \<open>min(2^0, 60) = 1\<close>. The execution is one that returns.
\<close>

theorem first_failure_backoff_one_minute:
  assumes "triggerIngestion tenv dto u st = Inr r"
    and "dto_maxRetries dto = Some 3"
    and "runScheduled penv (triggerScheduled r) (afterAssign r) = Inr (job', st')"
    and "status job' \<noteq> COMPLETED"
  shows "status job' = FAILED
       \<and> retryCount job' = 0
       \<and> nextRetryAt job' = Some (retryNow penv + 1 * 60 * 1000)
       \<and> findJobById (nextJobId st) st' = Some job'"
  using first_execution_failure [OF assms] by simp

theorem first_failure_backoff_one_minute_witness:
  "triggerIngestion example_trigger_env example_dto 1 example_empty_store = Inr example_triggered
   \<and> dto_maxRetries example_dto = Some 3
   \<and> status example_first_failure = FAILED
   \<and> retryCount example_first_failure = 0
   \<and> nextRetryAt example_first_failure = Some 1700000064000"
  using first_failure_backoff_one_minute
          [OF example_trigger_accepted _ example_first_failure_run example_first_failure_not_completed]
        example_trigger_accepted
  by (simp add: example_dto_def example_failing_env_def)

text \<open>
  The claim as stated, with \<open>nextRetryAt\<close> about two minutes after the failure, does not
  hold: in the example the job fails at 1700000004000 and \<open>nextRetryAt\<close> is 60000 ms later.
\<close>

theorem first_failure_not_two_minutes:
  "triggerIngestion example_trigger_env example_dto 1 example_empty_store = Inr example_triggered
   \<and> dto_maxRetries example_dto = Some 3
   \<and> status example_first_failure = FAILED
   \<and> retryCount example_first_failure = 0
   \<and> completedAt example_first_failure = Some 1700000004000
   \<and> nextRetryAt example_first_failure = Some (1700000004000 + 60000)
   \<and> nextRetryAt example_first_failure \<noteq> Some (1700000004000 + 2 * 60000)"
  using first_execution_failure
          [OF example_trigger_accepted _ example_first_failure_run example_first_failure_not_completed]
        example_trigger_accepted
  by (simp add: example_dto_def example_failing_env_def)

lemma createJob_maxRetries:
  "maxRetries (createJob env triggerDto userId docs)
     = (case dto_maxRetries triggerDto of None \<Rightarrow> 3 | Some n \<Rightarrow> if n = 0 then 3 else n)"
  by (simp add: createJob_def split: option.splits)

text \<open>
  C4, at the input where it fails. The caller supplies \<open>maxRetries = 0\<close>; the trigger is
  accepted and the created job has \<open>maxRetries = 3\<close>: \<open>triggerDto.maxRetries || 3\<close>
  takes the number 0 for an omitted value.
\<close>

theorem triggerIngestion_maxRetries_zero:
  "dto_maxRetries example_dto_zero = Some 0
   \<and> triggerIngestion example_trigger_env example_dto_zero 1 example_empty_store
       = Inr example_triggered_zero
   \<and> map maxRetries (jobRows (afterAssign example_triggered_zero)) = [3]
   \<and> maxRetries (fst (triggerScheduled example_triggered_zero)) = 3"
proof -
  have "\<exists>r. triggerIngestion example_trigger_env example_dto_zero 1 example_empty_store = Inr r
          \<and> map maxRetries (jobRows (afterAssign r)) = [3]
          \<and> maxRetries (fst (triggerScheduled r)) = 3"
    by (simp add: triggerIngestion_def validateDocuments_def findDocumentsIn_def save_def
        findJobById_def createJob_def Let_def example_dto_zero_def example_dto_def
        example_empty_store_def example_doc_def)
  then show ?thesis
    by (auto simp: example_triggered_zero_def example_dto_zero_def example_dto_def)
qed

subsection \<open>updateJobStatus\<close>

lemma findJobByExternalJobId_Some:
  "findJobByExternalJobId extId st = Some job \<Longrightarrow> job \<in> set (jobRows st) \<and> externalJobId job = Some extId"
  by (auto simp: findJobByExternalJobId_def find_Some_iff)

lemma applyStatusUpdate_fields:
  "job_id (applyStatusUpdate now u job) = job_id job"
  "externalJobId (applyStatusUpdate now u job) = externalJobId job"
  "status (applyStatusUpdate now u job) = mapExternalStatus (su_status u)"
  "retryCount (applyStatusUpdate now u job) = retryCount job"
  "maxRetries (applyStatusUpdate now u job) = maxRetries job"
  "createdById (applyStatusUpdate now u job) = createdById job"
  "inputData (applyStatusUpdate now u job) = inputData job"
  "progress (applyStatusUpdate now u job)
     = (if su_status u = ''completed'' then 100
        else if truthy_num (su_progress u) then the (su_progress u) else progress job)"
  "errorMessage (applyStatusUpdate now u job)
     = (if su_status u = ''failed'' then Some (str_or (su_error u) ''Processing failed'')
        else if truthy_str (su_error u) then su_error u else errorMessage job)"
  "outputData (applyStatusUpdate now u job)
     = (if truthy_json (su_output u) then su_output u else outputData job)"
  by (simp_all add: applyStatusUpdate_def Let_def)

lemma updateJobStatus_status_unguarded:
  assumes "findJobByExternalJobId extId st = Some job" and "job_id job = Some i"
  shows "map_option status (findJobById i (snd (updateJobStatus now extId statusUpdate st)))
           = Some (mapExternalStatus (su_status statusUpdate))"
  using assms
  by (simp add: updateJobStatus_def findJobById_save_same applyStatusUpdate_fields)

lemma mapExternalStatus_values:
  "mapExternalStatus ''pending'' = PENDING"
  "mapExternalStatus ''processing'' = PROCESSING"
  "mapExternalStatus ''completed'' = COMPLETED"
  "mapExternalStatus ''failed'' = FAILED"
  "t \<notin> set (map fst statusMap) \<Longrightarrow> t \<notin> set Object_prototype_names \<Longrightarrow> mapExternalStatus t = FAILED"
  "t \<in> set Object_prototype_names \<Longrightarrow> mapExternalStatus t = Inherited t"
  by (auto simp: mapExternalStatus_def statusMap_def Object_prototype_names_def)

text \<open>
  C8. \<open>updateJobStatus\<close> with an external id that no job of the store carries logs one
  warning and returns the store as it was: nothing is thrown, no job is created, no job
  is changed.
\<close>

theorem updateJobStatus_unknown_id:
  assumes "\<forall>job \<in> set (jobRows st). externalJobId job \<noteq> Some extId"
  shows "updateJobStatus now extId statusUpdate st
           = ([''Job with external ID '' @ extId @ '' not found''], st)"
proof -
  have "findJobByExternalJobId extId st = None"
    using assms by (simp add: findJobByExternalJobId_def find_None_iff)
  then show ?thesis by (simp add: updateJobStatus_def)
qed

theorem updateJobStatus_unknown_id_witness:
  "Some ''ext_job_0_unknown'' \<notin> set (map externalJobId (jobRows example_store))
   \<and> snd (updateJobStatus 1700000005000 ''ext_job_0_unknown'' example_update example_store) = example_store
   \<and> fst (updateJobStatus 1700000005000 ''ext_job_0_unknown'' example_update example_store)
       = [''Job with external ID ext_job_0_unknown not found'']"
  using updateJobStatus_unknown_id [of example_store "''ext_job_0_unknown''" 1700000005000 example_update]
  by (simp add: example_store_def example_failed_job_def)

text \<open>
  C9, at the input where it fails. The stored job has progress 50; a webhook update with
  status \<open>processing\<close> and progress 0 is delivered for it. The update's progress is
  present, yet the job keeps 50: \<open>statusUpdate.progress || job.progress\<close> takes the
  number 0 for an absent value.
\<close>

theorem updateJobStatus_progress_zero_ignored:
  "su_progress example_update = Some 0
   \<and> map progress (jobRows example_store) = [50]
   \<and> map progress (jobRows (snd (updateJobStatus 1700000005000 ''ext_job_1700000000000_abc''
                                      example_update example_store))) = [50]
   \<and> map status (jobRows (snd (updateJobStatus 1700000005000 ''ext_job_1700000000000_abc''
                                      example_update example_store))) = [PROCESSING]"
  by (simp add: updateJobStatus_def applyStatusUpdate_def findJobByExternalJobId_def findJobById_def save_def Let_def
      mapExternalStatus_def statusMap_def example_update_def example_store_def example_failed_job_def)

text \<open>
  C10, at the input where it fails. The token \<open>constructor\<close> is none of the four
  recognized tokens, yet the job's status does not become FAILED: the lookup
  \<open>statusMap['constructor']\<close> finds the property inherited from \<open>Object.prototype\<close>,
  which is truthy, and that value is stored as the status.
\<close>

theorem updateJobStatus_inherited_token:
  "su_status example_update_inherited = ''constructor''
   \<and> mapExternalStatus ''constructor'' = Inherited ''constructor''
   \<and> map status (jobRows (snd (updateJobStatus 1700000005000 ''ext_job_1700000000000_abc''
                                    example_update_inherited example_store)))
       = [Inherited ''constructor'']
   \<and> map status (jobRows (snd (updateJobStatus 1700000005000 ''ext_job_1700000000000_abc''
                                    example_update_inherited example_store)))
       \<noteq> [FAILED]"
  by (simp add: updateJobStatus_def applyStatusUpdate_def findJobByExternalJobId_def findJobById_def save_def Let_def
      mapExternalStatus_def statusMap_def Object_prototype_names_def
      example_update_inherited_def example_store_def example_failed_job_def)

subsection \<open>External job ids\<close>

lemma digit_char_inj: "d < 10 \<Longrightarrow> e < 10 \<Longrightarrow> digit_char d = digit_char e \<Longrightarrow> d = e"
proof -
  assume "d < 10" "e < 10" "digit_char d = digit_char e"
  moreover have "distinct ''0123456789''" by simp
  ultimately show "d = e"
    unfolding digit_char_def by (simp add: nth_eq_iff_index_eq)
qed

lemma digit_char_not_underscore: "d < 10 \<Longrightarrow> digit_char d \<noteq> CHR ''_''"
proof -
  assume "d < 10"
  then have "''0123456789'' ! d \<in> set ''0123456789''" by (intro nth_mem) simp
  then show ?thesis unfolding digit_char_def by auto
qed

lemma decimal_nonempty: "decimal n \<noteq> []"
  by (subst decimal.simps) simp

lemma decimal_no_underscore: "CHR ''_'' \<notin> set (decimal n)"
proof (induction n rule: decimal.induct)
  case (1 n)
  show ?case
  proof (cases "n < 10")
    case True
    then show ?thesis using digit_char_not_underscore [of n] by (subst decimal.simps) auto
  next
    case False
    then show ?thesis
      using "1.IH" digit_char_not_underscore [of "n mod 10"] by (subst decimal.simps) auto
  qed
qed

lemma decimal_inj: "decimal a = decimal b \<Longrightarrow> a = b"
proof (induction a arbitrary: b rule: decimal.induct)
  case (1 a)
  show ?case
  proof (cases "a < 10")
    case a: True
    show ?thesis
    proof (cases "b < 10")
      case True
      then show ?thesis
        using a "1.prems" digit_char_inj [of a b]
        by (simp add: decimal.simps [of a] decimal.simps [of b])
    next
      case False
      then show ?thesis
        using a "1.prems" decimal_nonempty [of "b div 10"]
        by (simp add: decimal.simps [of a] decimal.simps [of b])
    qed
  next
    case a: False
    show ?thesis
    proof (cases "b < 10")
      case True
      then show ?thesis
        using a "1.prems" decimal_nonempty [of "a div 10"]
        by (simp add: decimal.simps [of a] decimal.simps [of b])
    next
      case False
      from a False "1.prems" have eq: "decimal (a div 10) = decimal (b div 10)"
        and dg: "digit_char (a mod 10) = digit_char (b mod 10)"
        by (simp_all add: decimal.simps [of a] decimal.simps [of b])
      have "a div 10 = b div 10" using "1.IH" [OF a eq] .
      moreover have "a mod 10 = b mod 10" using digit_char_inj [OF _ _ dg] by simp
      ultimately show ?thesis by (metis div_mult_mod_eq)
    qed
  qed
qed

lemma split_at_first:
  "x \<notin> set xs \<Longrightarrow> x \<notin> set xs' \<Longrightarrow>
   xs @ x # ys = xs' @ x # ys' \<longleftrightarrow> xs = xs' \<and> ys = ys'"
proof (induction xs arbitrary: xs')
  case Nil
  then show ?case by (cases xs') auto
next
  case (Cons a xs)
  then show ?case by (cases xs') auto
qed

lemma generateExternalJobId_nonempty: "generateExternalJobId env \<noteq> []"
  by (simp add: generateExternalJobId_def)

lemma generateExternalJobId_eq_iff:
  "generateExternalJobId env = generateExternalJobId env'
     \<longleftrightarrow> dateNow env = dateNow env' \<and> randomSuffix env = randomSuffix env'"
proof -
  have "decimal (dateNow env) @ CHR ''_'' # randomSuffix env
          = decimal (dateNow env') @ CHR ''_'' # randomSuffix env'
        \<longleftrightarrow> decimal (dateNow env) = decimal (dateNow env') \<and> randomSuffix env = randomSuffix env'"
    by (rule split_at_first) (rule decimal_no_underscore)+
  then show ?thesis
    using decimal_inj [of "dateNow env" "dateNow env'"]
    by (auto simp: generateExternalJobId_def)
qed

lemma example_generated:
  "generateExternalJobId example_trigger_env = ''ext_job_1700000000000_abc''"
  by (simp add: generateExternalJobId_def example_trigger_env_def decimal.simps digit_char_def)

subsection \<open>External ids over time\<close>

lemma ext_preserved_refl: "ext_preserved st st"
  by (simp add: ext_preserved_def)

lemma ext_preserved_trans: "ext_preserved a b \<Longrightarrow> ext_preserved b c \<Longrightarrow> ext_preserved a c"
  by (simp add: ext_preserved_def)

lemma task_ok_preserved: "task_ok st t \<Longrightarrow> ext_preserved st st' \<Longrightarrow> task_ok st' t"
  by (auto simp: task_ok_def ext_preserved_def split: option.splits)

lemma store_ok_row_id:
  "store_ok st \<Longrightarrow> job \<in> set (jobRows st) \<Longrightarrow> \<exists>i. job_id job = Some i \<and> i < nextJobId st"
  by (auto simp: store_ok_def list_all_iff split: option.splits)

lemma find_unique:
  "distinct (map f xs) \<Longrightarrow> x \<in> set xs \<Longrightarrow> find (\<lambda>y. f y = f x) xs = Some x"
  by (induction xs) (auto simp: rev_image_eqI)

lemma store_ok_find_row:
  "store_ok st \<Longrightarrow> job \<in> set (jobRows st) \<Longrightarrow> job_id job = Some i \<Longrightarrow> findJobById i st = Some job"
  using find_unique [of job_id "jobRows st" job]
  by (simp add: store_ok_def findJobById_def)

lemma findJobById_lt: "store_ok st \<Longrightarrow> findJobById i st = Some job \<Longrightarrow> i < nextJobId st"
  using store_ok_row_id [of st job]
  by (auto simp: findJobById_def find_Some_iff)

text \<open>A save of a job that keeps the external id of the stored job of its id.\<close>

lemma save_ext_preserved:
  assumes "job_id J = Some i" and "externalIdOf i st = Some (externalJobId J)"
  shows "ext_preserved st (snd (save J st))"
  unfolding ext_preserved_def externalIdOf_def
proof (intro allI impI)
  fix k e
  assume "map_option externalJobId (findJobById k st) = Some e"
  then show "map_option externalJobId (findJobById k (snd (save J st))) = Some e"
    using assms findJobById_save_same [OF assms(1), of st] findJobById_save_other [OF assms(1), of k st]
    by (cases "k = i") (auto simp: externalIdOf_def)
qed

lemma save_new_ext_preserved:
  assumes "store_ok st" and "job_id J = None"
  shows "ext_preserved st (snd (save J st))"
  unfolding ext_preserved_def externalIdOf_def
proof (intro allI impI)
  fix k e
  assume a: "map_option externalJobId (findJobById k st) = Some e"
  then obtain job where "findJobById k st = Some job" by auto
  then have "k \<noteq> nextJobId st" using findJobById_lt [OF assms(1)] by auto
  then show "map_option externalJobId (findJobById k (snd (save J st))) = Some e"
    using a by (simp add: findJobById_save_new_other [OF assms])
qed

lemma trigger_invariant:
  assumes ok: "store_ok st" and tr: "triggerIngestion tenv dto u st = Inr r"
  shows "store_ok (afterAssign r)"
    and "ext_preserved st (afterAssign r)"
    and "task_ok (afterAssign r) (triggerScheduled r)"
    and "externalIdOf (nextJobId st) st = None"
    and "externalIdOf (nextJobId st) (afterCreate r) = Some None"
    and "externalIdOf (nextJobId st) (afterAssign r) = Some (Some (generateExternalJobId tenv))"
proof -
  from triggerIngestion_Inr [OF tr] obtain docs where
    c: "afterCreate r = snd (save (createJob tenv dto u docs) st)"
    and a: "afterAssign r
              = snd (save ((createJob tenv dto u docs)
                             \<lparr>job_id := Some (nextJobId st),
                              externalJobId := Some (generateExternalJobId tenv)\<rparr>)
                          (afterCreate r))"
    and s: "triggerScheduled r
              = ((createJob tenv dto u docs)
                   \<lparr>job_id := Some (nextJobId st),
                    externalJobId := Some (generateExternalJobId tenv)\<rparr>, docs)"
    by blast
  define created where "created = createJob tenv dto u docs"
  define assigned where "assigned = created\<lparr>job_id := Some (nextJobId st),
                              externalJobId := Some (generateExternalJobId tenv)\<rparr>"
  have cn: "job_id created = None" by (simp add: created_def job_id_createJob)
  have an: "job_id assigned = Some (nextJobId st)" by (simp add: assigned_def)
  have c': "afterCreate r = snd (save created st)" by (simp add: c created_def)
  have a': "afterAssign r = snd (save assigned (afterCreate r))" by (simp add: a assigned_def created_def)
  have okc: "store_ok (afterCreate r)" unfolding c' by (rule store_ok_save_new [OF ok cn])
  have inc: "findJobById (nextJobId st) (afterCreate r) = Some (created\<lparr>job_id := Some (nextJobId st)\<rparr>)"
    unfolding c' by (rule findJobById_save_new_same [OF ok cn])
  show "store_ok (afterAssign r)"
    unfolding a' by (rule store_ok_save_existing [OF okc an]) (simp add: inc)
  have pc: "ext_preserved st (afterCreate r)"
    unfolding c' by (rule save_new_ext_preserved [OF ok cn])
  show "externalIdOf (nextJobId st) st = None"
    by (simp add: externalIdOf_def store_ok_fresh [OF ok])
  show "externalIdOf (nextJobId st) (afterCreate r) = Some None"
    by (simp add: externalIdOf_def inc created_def createJob_def)
  show ext: "externalIdOf (nextJobId st) (afterAssign r) = Some (Some (generateExternalJobId tenv))"
    unfolding a' by (simp add: externalIdOf_save_same [OF an]) (simp add: assigned_def)
  show "task_ok (afterAssign r) (triggerScheduled r)"
    using ext by (simp add: task_ok_def s)
  show "ext_preserved st (afterAssign r)"
    unfolding ext_preserved_def
  proof (intro allI impI)
    fix k e
    assume h: "externalIdOf k st = Some e"
    then obtain job where "findJobById k st = Some job" by (auto simp: externalIdOf_def)
    then have ne: "k \<noteq> nextJobId st" using findJobById_lt [OF ok] by auto
    have "externalIdOf k (afterCreate r) = Some e"
      using pc h by (simp add: ext_preserved_def)
    then show "externalIdOf k (afterAssign r) = Some e"
      unfolding a' by (simp add: externalIdOf_def findJobById_save_other [OF an ne])
  qed
qed

lemma retryJob_Inr_save:
  assumes "retryJob i userId st = Inr r"
  shows "\<exists>job. findJobById i st = Some job
           \<and> afterRetry r = snd (save (job\<lparr>status := RETRYING, progress := 0, errorMessage := None,
                            retryCount := retryCount job + 1, nextRetryAt := None\<rparr>) st)
           \<and> fst (retryScheduled r) = job\<lparr>status := RETRYING, progress := 0, errorMessage := None,
                            retryCount := retryCount job + 1, nextRetryAt := None\<rparr>"
proof -
  from assms obtain job where f: "findOne i userId st = Inr job"
    by (auto simp: retryJob_def split: sum.splits)
  then have g: "findJobById i st = Some job" by (simp add: findOne_Inr)
  then have jid: "job_id job = Some i" by (rule findJobById_job_id)
  show ?thesis
    using assms f g jid
    by (intro exI [of _ job])
       (auto simp: retryJob_def Let_def split_beta fst_save_existing split: if_splits)
qed

lemma retry_invariant:
  assumes ok: "store_ok st" and rt: "retryJob i userId st = Inr r"
  shows "store_ok (afterRetry r)"
    and "ext_preserved st (afterRetry r)"
    and "task_ok (afterRetry r) (retryScheduled r)"
proof -
  from retryJob_Inr_save [OF rt] obtain job where
    g: "findJobById i st = Some job"
    and a: "afterRetry r = snd (save (job\<lparr>status := RETRYING, progress := 0, errorMessage := None,
                            retryCount := retryCount job + 1, nextRetryAt := None\<rparr>) st)"
    and s: "fst (retryScheduled r) = job\<lparr>status := RETRYING, progress := 0, errorMessage := None,
                            retryCount := retryCount job + 1, nextRetryAt := None\<rparr>"
    by blast
  define job' where "job' = job\<lparr>status := RETRYING, progress := 0, errorMessage := None,
                            retryCount := retryCount job + 1, nextRetryAt := None\<rparr>"
  have jid: "job_id job' = Some i" using findJobById_job_id [OF g] by (simp add: job'_def)
  have ext: "externalIdOf i st = Some (externalJobId job')" by (simp add: externalIdOf_def g job'_def)
  have a': "afterRetry r = snd (save job' st)" by (simp add: a job'_def)
  show "store_ok (afterRetry r)"
    unfolding a' by (rule store_ok_save_existing [OF ok jid]) (simp add: g)
  show "ext_preserved st (afterRetry r)"
    unfolding a' by (rule save_ext_preserved [OF jid ext])
  show "task_ok (afterRetry r) (retryScheduled r)"
  proof -
    have "fst (retryScheduled r) = job'" by (simp add: s job'_def)
    then show ?thesis
      by (simp add: task_ok_def jid a' externalIdOf_save_same [OF jid])
  qed
qed

lemma webhook_invariant:
  assumes ok: "store_ok st"
  shows "store_ok (snd (updateJobStatus now extId statusUpdate st))"
    and "ext_preserved st (snd (updateJobStatus now extId statusUpdate st))"
proof -
  show "store_ok (snd (updateJobStatus now extId statusUpdate st))"
  proof (cases "findJobByExternalJobId extId st")
    case None
    then show ?thesis using ok by (simp add: updateJobStatus_def)
  next
    case (Some job)
    then have mem: "job \<in> set (jobRows st)" by (simp add: findJobByExternalJobId_Some)
    then obtain i where jid: "job_id job = Some i" using store_ok_row_id [OF ok] by blast
    have g: "findJobById i st = Some job" by (rule store_ok_find_row [OF ok mem jid])
    have jid': "job_id (applyStatusUpdate now statusUpdate job) = Some i"
      by (simp add: applyStatusUpdate_fields jid)
    show ?thesis
      using Some store_ok_save_existing [OF ok jid'] g by (simp add: updateJobStatus_def)
  qed
  show "ext_preserved st (snd (updateJobStatus now extId statusUpdate st))"
  proof (cases "findJobByExternalJobId extId st")
    case None
    then show ?thesis by (simp add: updateJobStatus_def ext_preserved_refl)
  next
    case (Some job)
    then have mem: "job \<in> set (jobRows st)" by (simp add: findJobByExternalJobId_Some)
    then obtain i where jid: "job_id job = Some i" using store_ok_row_id [OF ok] by blast
    have g: "findJobById i st = Some job" by (rule store_ok_find_row [OF ok mem jid])
    have jid': "job_id (applyStatusUpdate now statusUpdate job) = Some i"
      by (simp add: applyStatusUpdate_fields jid)
    have ext: "externalIdOf i st = Some (externalJobId (applyStatusUpdate now statusUpdate job))"
      by (simp add: externalIdOf_def g applyStatusUpdate_fields)
    show ?thesis
      using Some save_ext_preserved [OF jid' ext] by (simp add: updateJobStatus_def)
  qed
qed

lemma processJob_frame:
  assumes "job_id job = Some i"
  shows "job_frame i (externalJobId job) st (storeAfter (processJob env job docs st))"
proof (cases "processJob env job docs st")
  case (Inl x)
  obtain r j s where x: "x = (r, j, s)" by (cases x) auto
  from processJob_shape [OF assms, where env = env and docs = docs and st = st]
  show ?thesis by (simp add: Inl x)
next
  case (Inr y)
  obtain j s where y: "y = (j, s)" by (cases y) auto
  from processJob_shape [OF assms, where env = env and docs = docs and st = st]
  show ?thesis by (simp add: Inr y)
qed

lemma execute_invariant:
  assumes ok: "store_ok st" and t: "task_ok st task"
  shows "store_ok (storeAfter (runScheduled env task st))"
    and "ext_preserved st (storeAfter (runScheduled env task st))"
proof -
  from t obtain i where jid: "job_id (fst task) = Some i"
    and ext: "externalIdOf i st = Some (externalJobId (fst task))"
    by (auto simp: task_ok_def split: option.splits)
  from ext have ex: "findJobById i st \<noteq> None" by (auto simp: externalIdOf_def)
  note fr = processJob_frame [OF jid, where env = env and docs = "snd task" and st = st]
  show "store_ok (storeAfter (runScheduled env task st))"
    using fr ok ex by (simp add: runScheduled_def job_frame_def)
  show "ext_preserved st (storeAfter (runScheduled env task st))"
    unfolding ext_preserved_def
  proof (intro allI impI)
    fix k e
    assume h: "externalIdOf k st = Some e"
    show "externalIdOf k (storeAfter (runScheduled env task st)) = Some e"
    proof (cases "k = i")
      case True
      then show ?thesis using h ext fr by (simp add: runScheduled_def job_frame_def)
    next
      case False
      then show ?thesis
        using h fr by (simp add: runScheduled_def job_frame_def externalIdOf_def)
    qed
  qed
qed

lemma list_all_task_ok_preserved:
  "list_all (task_ok st) ts \<Longrightarrow> ext_preserved st st' \<Longrightarrow> list_all (task_ok st') ts"
  by (auto simp: list_all_iff intro: task_ok_preserved)

lemma step_invariant:
  assumes "system_ok s"
  shows "system_ok (step s req) \<and> ext_preserved (sys_store s) (sys_store (step s req))"
proof -
  from assms have ok: "store_ok (sys_store s)" and ts: "list_all (task_ok (sys_store s)) (pending s)"
    by (simp_all add: system_ok_def)
  show ?thesis
  proof (cases req)
    case (Trigger tenv dto u)
    show ?thesis
    proof (cases "triggerIngestion tenv dto u (sys_store s)")
      case (Inl e)
      then show ?thesis using assms Trigger by (simp add: ext_preserved_refl)
    next
      case (Inr r)
      note inv = trigger_invariant [OF ok Inr]
      show ?thesis
        using Trigger Inr inv(1,2,3) list_all_task_ok_preserved [OF ts inv(2)]
        by (simp add: system_ok_def)
    qed
  next
    case (Retry i u)
    show ?thesis
    proof (cases "retryJob i u (sys_store s)")
      case (Inl e)
      then show ?thesis using assms Retry by (simp add: ext_preserved_refl)
    next
      case (Inr r)
      note inv = retry_invariant [OF ok Inr]
      show ?thesis
        using Retry Inr inv list_all_task_ok_preserved [OF ts inv(2)]
        by (simp add: system_ok_def)
    qed
  next
    case (Webhook now extId statusUpdate)
    note inv = webhook_invariant [OF ok, of now extId statusUpdate]
    show ?thesis
      using Webhook inv list_all_task_ok_preserved [OF ts inv(2)]
      by (simp add: system_ok_def)
  next
    case (Execute env k)
    show ?thesis
    proof (cases "k < length (pending s)")
      case False
      then show ?thesis using assms Execute by (simp add: ext_preserved_refl)
    next
      case True
      then have t: "task_ok (sys_store s) (pending s ! k)"
        using ts by (simp add: list_all_length)
      note inv = execute_invariant [OF ok t, of env]
      have "list_all (task_ok (sys_store s)) (take k (pending s) @ drop (Suc k) (pending s))"
        using ts by (auto simp: list_all_iff dest: in_set_takeD in_set_dropD)
      from list_all_task_ok_preserved [OF this inv(2)] show ?thesis
        using Execute True inv by (simp add: system_ok_def)
    qed
  qed
qed

lemma run_invariant:
  "system_ok s \<Longrightarrow> system_ok (run s reqs) \<and> ext_preserved (sys_store s) (sys_store (run s reqs))"
proof (induction reqs arbitrary: s)
  case Nil
  then show ?case by (simp add: run_def ext_preserved_refl)
next
  case (Cons req reqs)
  from step_invariant [OF Cons.prems, of req]
  have a: "system_ok (step s req)" and b: "ext_preserved (sys_store s) (sys_store (step s req))"
    by simp_all
  from Cons.IH [OF a] b show ?case
    by (auto simp: run_def intro: ext_preserved_trans)
qed

lemma external_id_lifecycle:
  assumes "system_ok s" and "triggerIngestion tenv dto u (sys_store s) = Inr r"
  shows "externalIdOf (nextJobId (sys_store s)) (sys_store s) = None
       \<and> externalIdOf (nextJobId (sys_store s)) (afterCreate r) = Some None
       \<and> externalIdOf (nextJobId (sys_store s)) (afterAssign r)
           = Some (Some (generateExternalJobId tenv))
       \<and> generateExternalJobId tenv \<noteq> []
       \<and> (\<forall>reqs. externalIdOf (nextJobId (sys_store s))
                     (sys_store (run (step s (Trigger tenv dto u)) reqs))
                   = Some (Some (generateExternalJobId tenv)))
       \<and> (\<forall>tenv'. generateExternalJobId tenv' = generateExternalJobId tenv
                   \<longleftrightarrow> dateNow tenv' = dateNow tenv \<and> randomSuffix tenv' = randomSuffix tenv)"
proof -
  from assms(1) have ok: "store_ok (sys_store s)" by (simp add: system_ok_def)
  note inv = trigger_invariant [OF ok assms(2)]
  have st: "sys_store (step s (Trigger tenv dto u)) = afterAssign r"
    using assms(2) by simp
  have ok': "system_ok (step s (Trigger tenv dto u))"
    using step_invariant [OF assms(1), of "Trigger tenv dto u"] by blast
  have later: "externalIdOf (nextJobId (sys_store s))
                     (sys_store (run (step s (Trigger tenv dto u)) reqs))
                   = Some (Some (generateExternalJobId tenv))" for reqs
  proof -
    have "ext_preserved (sys_store (step s (Trigger tenv dto u)))
            (sys_store (run (step s (Trigger tenv dto u)) reqs))"
      using run_invariant [OF ok', of reqs] by blast
    then show ?thesis
      using inv(6) unfolding st ext_preserved_def by blast
  qed
  show ?thesis
    using inv(4,5,6) later generateExternalJobId_nonempty generateExternalJobId_eq_iff by blast
qed

lemma example_system_ok: "system_ok example_system"
  by (simp add: system_ok_def store_ok_def example_system_def example_empty_store_def)

text \<open>
  C5 (as amended). The external id of a job is assigned exactly once: the job does not
  exist before the trigger, the initial persist stores it without external id, the persist
  that follows stores the generated id, which is not empty, and whatever requests and
  executions come later, the store holds that same id for the job. The id is
  \<open>ext_job_\<close>, the clock reading, \<open>_\<close> and the random suffix, generated without
  looking at the store: another trigger is given the same id exactly when it reads the
  same clock value and draws the same suffix.
\<close>

theorem externalJobId_assigned_once:
  assumes "system_ok s" and "triggerIngestion tenv dto u (sys_store s) = Inr r"
  shows "externalIdOf (nextJobId (sys_store s)) (sys_store s) = None
       \<and> externalIdOf (nextJobId (sys_store s)) (afterCreate r) = Some None
       \<and> externalIdOf (nextJobId (sys_store s)) (afterAssign r)
           = Some (Some (generateExternalJobId tenv))
       \<and> generateExternalJobId tenv \<noteq> []
       \<and> (\<forall>reqs. externalIdOf (nextJobId (sys_store s))
                     (sys_store (run (step s (Trigger tenv dto u)) reqs))
                   = Some (Some (generateExternalJobId tenv)))
       \<and> (\<forall>tenv'. generateExternalJobId tenv' = generateExternalJobId tenv
                   \<longleftrightarrow> dateNow tenv' = dateNow tenv \<and> randomSuffix tenv' = randomSuffix tenv)"
  using assms by (rule external_id_lifecycle)

theorem externalJobId_assigned_once_witness:
  "externalIdOf 1 (sys_store example_system) = None
   \<and> externalIdOf 1 (afterCreate example_triggered) = Some None
   \<and> externalIdOf 1 (afterAssign example_triggered) = Some (Some ''ext_job_1700000000000_abc'')
   \<and> externalIdOf 1 (sys_store (run (step example_system (Trigger example_trigger_env example_dto 1))
                                     example_history))
       = Some (Some ''ext_job_1700000000000_abc'')"
proof -
  have tr: "triggerIngestion example_trigger_env example_dto 1 (sys_store example_system)
              = Inr example_triggered"
    using example_trigger_accepted by (simp add: example_system_def)
  have n: "nextJobId (sys_store example_system) = 1"
    by (simp add: example_system_def example_empty_store_def)
  from externalJobId_assigned_once [OF example_system_ok tr] show ?thesis
    unfolding n example_generated by blast
qed

text \<open>
  The claim as stated, with ids unique across all jobs and regenerated on collision, does
  not hold: two triggers that read the same clock value and draw the same suffix leave two
  jobs with one external id in the store.
\<close>

theorem externalJobId_collision:
  "map job_id (jobRows (sys_store (run example_system example_same_draw))) = [Some 1, Some 2]
   \<and> map externalJobId (jobRows (sys_store (run example_system example_same_draw)))
       = [Some ''ext_job_1700000000000_abc'', Some ''ext_job_1700000000000_abc'']"
  by (simp add: run_def example_same_draw_def example_system_def triggerIngestion_def
      validateDocuments_def findDocumentsIn_def save_def findJobById_def createJob_def Let_def
      example_generated example_dto_def example_empty_store_def example_doc_def)

end
